theory Spec2Isabelle
  imports Main "HOL-Library.Log_Nat"
begin

section \<open>Medical image tools: the slice-extraction operation\<close>

text \<open>
  The development embeds \<^verbatim>\<open>src/medImageUtils.py\<close>. Python integers are \<open>int\<close>
  (floor division \<^verbatim>\<open>//\<close> is \<open>div\<close> on \<open>int\<close>), strings are \<open>string\<close>, and every
  exception the Python raises is a value of \<open>py_error\<close> returned on the left of a sum.
\<close>

datatype py_error = IndexError | ZeroDivisionError | OverflowError | TypeError | RuntimeError

subsection \<open>Sequences and arrays\<close>

text \<open>
  Indexing a Python list or tuple with a non-negative constant: \<^verbatim>\<open>xs[k]\<close> raises
  \<^verbatim>\<open>IndexError\<close> when \<open>k\<close> is not below the length.
\<close>

definition getitem :: "'a list \<Rightarrow> nat \<Rightarrow> py_error + 'a" where
  "getitem xs k = (if k < length xs then Inr (xs ! k) else Inl IndexError)"

text \<open>
  A NumPy array, as \<^verbatim>\<open>sitk.GetArrayFromImage\<close> returns it: its \<^verbatim>\<open>shape\<close> (one extent
  per axis) and its elements, read by a full index tuple.
\<close>

record 'a ndarray =
  shape :: "int list"
  item :: "int list \<Rightarrow> 'a"

text \<open>
  \<^verbatim>\<open>array[i, :, :]\<close>, \<^verbatim>\<open>array[:, i, :]\<close> and \<^verbatim>\<open>array[:, :, i]\<close>: an integer at position
  \<open>axis\<close> of a three-place subscript. NumPy raises \<^verbatim>\<open>IndexError\<close> when the array has
  fewer than three axes or when \<open>i\<close> is outside \<open>[-extent, extent)\<close>; a negative \<open>i\<close> in
  range counts from the end of the axis.
\<close>

definition plane_at :: "'a ndarray \<Rightarrow> nat \<Rightarrow> int \<Rightarrow> 'a ndarray" where
  "plane_at array axis j =
     \<lparr>shape = take axis (shape array) @ drop (Suc axis) (shape array),
      item = (\<lambda>idx. item array (take axis idx @ [j] @ drop axis idx))\<rparr>"

definition take_plane :: "'a ndarray \<Rightarrow> nat \<Rightarrow> int \<Rightarrow> py_error + 'a ndarray" where
  "take_plane array axis i =
     (if length (shape array) < 3 then Inl IndexError
      else let extent = shape array ! axis in
        if i < - extent \<or> extent \<le> i then Inl IndexError
        else Inr (plane_at array axis (if i < 0 then i + extent else i)))"

subsection \<open>Formatting integers\<close>

definition digit_char :: "nat \<Rightarrow> char" where
  "digit_char d = ''0123456789'' ! d"

fun str_nat :: "nat \<Rightarrow> string" where
  "str_nat n = (if n < 10 then [digit_char n] else str_nat (n div 10) @ [digit_char (n mod 10)])"

declare str_nat.simps [simp del]

text \<open>\<^verbatim>\<open>f"{i}"\<close> for a Python integer.\<close>

definition str_int :: "int \<Rightarrow> string" where
  "str_int i = (if i < 0 then CHR ''-'' # str_nat (nat (- i)) else str_nat (nat i))"

subsection \<open>Collecting the slices of the three views\<close>

text \<open>\<^verbatim>\<open>range(start, end)\<close> over integers.\<close>

definition py_range :: "int \<Rightarrow> int \<Rightarrow> int list" where
  "py_range start end = [start..end - 1]"

text \<open>
  The indices a view runs over: \<^verbatim>\<open>start = max(0, center - n//2)\<close>,
  \<^verbatim>\<open>end = min(array.shape[axis], center + n//2 + 1)\<close>, \<^verbatim>\<open>range(start, end)\<close>.
\<close>

definition window :: "int \<Rightarrow> int \<Rightarrow> int \<Rightarrow> int list" where
  "window center n extent =
     (let start = max 0 (center - n div 2);
          end = min extent (center + n div 2 + 1)
      in py_range start end)"

definition slice_name :: "string \<Rightarrow> int \<Rightarrow> string" where
  "slice_name view i = view @ ''_'' @ str_int i"

text \<open>
  The body of \<^verbatim>\<open>for i in range(start, end): slices.append((f"{view}_{i}", array[...]))\<close>,
  run over the indices of the range; \<open>slices\<close> is the list built so far.
\<close>

fun append_slices ::
  "'a ndarray \<Rightarrow> nat \<Rightarrow> string \<Rightarrow> int list \<Rightarrow> (string \<times> 'a ndarray) list
    \<Rightarrow> py_error + (string \<times> 'a ndarray) list" where
  "append_slices array axis view [] slices = Inr slices"
| "append_slices array axis view (i # rest) slices =
     (case take_plane array axis i of
        Inl e \<Rightarrow> Inl e
      | Inr plane \<Rightarrow> append_slices array axis view rest (slices @ [(slice_name view i, plane)]))"

text \<open>
  One branch of the \<^verbatim>\<open>if view == ...\<close> chain, for the view that reads \<open>location[axis]\<close>
  and \<open>array.shape[axis]\<close>.
\<close>

definition view_branch ::
  "'a ndarray \<Rightarrow> int list \<Rightarrow> int \<Rightarrow> string \<Rightarrow> nat \<Rightarrow> (string \<times> 'a ndarray) list
    \<Rightarrow> py_error + (string \<times> 'a ndarray) list" where
  "view_branch array location n view axis slices =
     (case getitem location axis of
        Inl e \<Rightarrow> Inl e
      | Inr center \<Rightarrow>
          (case getitem (shape array) axis of
             Inl e \<Rightarrow> Inl e
           | Inr extent \<Rightarrow> append_slices array axis view (window center n extent) slices))"

text \<open>The body of \<^verbatim>\<open>for view in views\<close>: the chain of comparisons with the view names.\<close>

definition view_step ::
  "'a ndarray \<Rightarrow> int list \<Rightarrow> int \<Rightarrow> string \<Rightarrow> (string \<times> 'a ndarray) list
    \<Rightarrow> py_error + (string \<times> 'a ndarray) list" where
  "view_step array location n view slices =
     (if view = ''axial'' then view_branch array location n view 0 slices
      else if view = ''coronal'' then view_branch array location n view 1 slices
      else if view = ''sagittal'' then view_branch array location n view 2 slices
      else Inr slices)"

fun view_loop ::
  "'a ndarray \<Rightarrow> int list \<Rightarrow> int \<Rightarrow> string list \<Rightarrow> (string \<times> 'a ndarray) list
    \<Rightarrow> py_error + (string \<times> 'a ndarray) list" where
  "view_loop array location n [] slices = Inr slices"
| "view_loop array location n (view # rest) slices =
     (case view_step array location n view slices of
        Inl e \<Rightarrow> Inl e
      | Inr slices' \<Rightarrow> view_loop array location n rest slices')"

definition views :: "string list" where
  "views = [''axial'', ''coronal'', ''sagittal'']"

text \<open>
  The center used: \<^verbatim>\<open>location\<close> when given, else \<^verbatim>\<open>[s//2 for s in array.shape]\<close>.
\<close>

definition center_location :: "'a ndarray \<Rightarrow> int list option \<Rightarrow> int list" where
  "center_location array location =
     (case location of None \<Rightarrow> map (\<lambda>s. s div 2) (shape array) | Some l \<Rightarrow> l)"

text \<open>Lines 72 to 97: the list \<^verbatim>\<open>slices\<close> after the loop over the views.\<close>

definition collect_slices ::
  "'a ndarray \<Rightarrow> int list option \<Rightarrow> int \<Rightarrow> py_error + (string \<times> 'a ndarray) list" where
  "collect_slices array location n =
     view_loop array (center_location array location) n views []"

subsection \<open>Path names\<close>

text \<open>
  The functions of Python's \<^verbatim>\<open>posixpath\<close> the program calls. \<^verbatim>\<open>p.rfind(c)\<close> is the
  highest index of \<open>c\<close> in \<open>p\<close>, or \<open>-1\<close>.
\<close>

definition rfind :: "string \<Rightarrow> char \<Rightarrow> int" where
  "rfind p c =
     (if c \<in> set p then int (length p) - 1 - int (length (takeWhile (\<lambda>x. x \<noteq> c) (rev p)))
      else - 1)"

text \<open>\<^verbatim>\<open>os.path.basename\<close>: \<^verbatim>\<open>i = p.rfind('/') + 1; return p[i:]\<close>.\<close>

definition basename :: "string \<Rightarrow> string" where
  "basename p = drop (nat (rfind p CHR ''/'' + 1)) p"

text \<open>
  The loop of \<^verbatim>\<open>genericpath._splitext\<close> that skips the leading dots of the file name:
  the first character that is not a dot splits the path at \<open>dotIndex\<close>.
\<close>

function splitext_scan :: "string \<Rightarrow> nat \<Rightarrow> nat \<Rightarrow> string \<times> string" where
  "splitext_scan p filenameIndex dotIndex =
     (if filenameIndex < dotIndex then
        (if take 1 (drop filenameIndex p) \<noteq> ''.'' then (take dotIndex p, drop dotIndex p)
         else splitext_scan p (Suc filenameIndex) dotIndex)
      else (p, []))"
  by pat_completeness auto
termination
  by (relation "measure (\<lambda>(p, filenameIndex, dotIndex). dotIndex - filenameIndex)") auto

declare splitext_scan.simps [simp del]

text \<open>\<^verbatim>\<open>os.path.splitext\<close> (POSIX: the separator is \<open>/\<close>, the extension separator a dot).\<close>

definition splitext :: "string \<Rightarrow> string \<times> string" where
  "splitext p =
     (let sepIndex = rfind p CHR ''/'';
          dotIndex = rfind p CHR ''.''
      in if dotIndex > sepIndex then splitext_scan p (nat (sepIndex + 1)) (nat dotIndex)
         else (p, []))"

text \<open>\<^verbatim>\<open>os.path.join(a, b)\<close> with one component after the first.\<close>

definition join :: "string \<Rightarrow> string \<Rightarrow> string" where
  "join a b =
     (if take 1 b = ''/'' then b
      else if a = [] \<or> last a = CHR ''/'' then a @ b
      else a @ ''/'' @ b)"

subsection \<open>Writing the slices\<close>

text \<open>
  The loop of lines 103 to 108. \<^verbatim>\<open>cv2.normalize\<close> and \<^verbatim>\<open>cv2.imwrite\<close> belong to OpenCV and
  are parameters; either may raise. \<^verbatim>\<open>cv2.imwrite\<close> returns whether it wrote the file, and
  the program discards that result: the path is appended to \<open>output_files\<close> in both cases,
  while \<open>files\<close> holds the files that were written. \<^verbatim>\<open>output_path\<close> defaults to \<^verbatim>\<open>None\<close>, on
  which \<^verbatim>\<open>os.path.join\<close> raises \<^verbatim>\<open>TypeError\<close>. When the loop raises, the files written before
  are not reported.
\<close>

record 'b extract_output =
  files :: "(string \<times> 'b) list"
  output_files :: "string list"

fun save_loop ::
  "('a ndarray \<Rightarrow> py_error + 'b) \<Rightarrow> (string \<Rightarrow> 'b \<Rightarrow> py_error + bool) \<Rightarrow> string option \<Rightarrow> string
    \<Rightarrow> (string \<times> 'a ndarray) list \<Rightarrow> 'b extract_output \<Rightarrow> py_error + 'b extract_output" where
  "save_loop cv2_normalize cv2_imwrite output_path base_name [] w = Inr w"
| "save_loop cv2_normalize cv2_imwrite output_path base_name ((name, slice_data) # rest) w =
     (case cv2_normalize slice_data of
        Inl e \<Rightarrow> Inl e
      | Inr normalized \<Rightarrow>
          (case output_path of
             None \<Rightarrow> Inl TypeError
           | Some dir \<Rightarrow>
               let output_file = join dir (base_name @ ''_'' @ name @ ''.png'') in
               (case cv2_imwrite output_file normalized of
                  Inl e \<Rightarrow> Inl e
                | Inr ok \<Rightarrow>
                    save_loop cv2_normalize cv2_imwrite output_path base_name rest
                      \<lparr>files = (if ok then files w @ [(output_file, normalized)] else files w),
                       output_files = output_files w @ [output_file]\<rparr>)))"

text \<open>
  \<^verbatim>\<open>extract_2d_slices\<close>; \<open>array\<close> is what \<^verbatim>\<open>sitk.GetArrayFromImage(sitk.ReadImage(image_path))\<close>
  returned.
\<close>

definition extract_2d_slices ::
  "('a ndarray \<Rightarrow> py_error + 'b) \<Rightarrow> (string \<Rightarrow> 'b \<Rightarrow> py_error + bool) \<Rightarrow> 'a ndarray \<Rightarrow> string
    \<Rightarrow> int list option \<Rightarrow> int \<Rightarrow> string option \<Rightarrow> py_error + 'b extract_output" where
  "extract_2d_slices cv2_normalize cv2_imwrite array image_path location n output_path =
     (case collect_slices array location n of
        Inl e \<Rightarrow> Inl e
      | Inr slices \<Rightarrow>
          let base_name = fst (splitext (basename image_path)) in
          save_loop cv2_normalize cv2_imwrite output_path base_name slices
            \<lparr>files = [], output_files = []\<rparr>)"

section \<open>The resize operation\<close>

subsection \<open>Python floats\<close>

text \<open>
  A Python \<^verbatim>\<open>float\<close> is an IEEE 754 binary64 value: a finite number (given here by its exact
  rational value; the two zeros are not told apart), an infinity or a NaN.
\<close>

datatype py_float = Finite rat | PosInf | NegInf | NaN

text \<open>Rounding a rational to the nearest integer, a tie going to the even one.\<close>

definition round_half_even :: "rat \<Rightarrow> int" where
  "round_half_even y =
     (let f = \<lfloor>y\<rfloor>; d = y - of_int f
      in if d < 1 / 2 then f else if 1 / 2 < d then f + 1 else if even f then f else f + 1)"

text \<open>The exponent of a positive rational: the \<open>e\<close> with \<open>2 powi e \<le> x < 2 powi (e + 1)\<close>.\<close>

definition ilog2 :: "rat \<Rightarrow> int" where
  "ilog2 x =
     (let (p, q) = quotient_of x; d = bitlen p - bitlen q
      in if 2 powi d \<le> x then d else d - 1)"

text \<open>
  The binary64 rounding of an exact result, before the overflow check: 53 significant bits
  for a normal number, multiples of \<open>2 powi (- 1074)\<close> below \<open>2 powi (- 1022)\<close>, round to
  nearest, ties to even.
\<close>

definition binary64_round :: "rat \<Rightarrow> rat" where
  "binary64_round x =
     (if x = 0 then 0
      else let e = max (ilog2 \<bar>x\<bar>) (- 1022);
               ulp = 2 powi (e - 52)
           in of_int (round_half_even (x / ulp)) * ulp)"

text \<open>\<^verbatim>\<open>x * y\<close> on floats: the rounded product, an infinity on overflow, NaN for \<open>0 * inf\<close>.\<close>

fun float_mul :: "py_float \<Rightarrow> py_float \<Rightarrow> py_float" where
  "float_mul (Finite x) (Finite y) =
     (let r = binary64_round (x * y)
      in if 2 ^ 1024 \<le> r then PosInf else if r \<le> - (2 ^ 1024) then NegInf else Finite r)"
| "float_mul NaN y = NaN"
| "float_mul x NaN = NaN"
| "float_mul (Finite x) PosInf = (if x = 0 then NaN else if 0 < x then PosInf else NegInf)"
| "float_mul (Finite x) NegInf = (if x = 0 then NaN else if 0 < x then NegInf else PosInf)"
| "float_mul PosInf (Finite y) = (if y = 0 then NaN else if 0 < y then PosInf else NegInf)"
| "float_mul NegInf (Finite y) = (if y = 0 then NaN else if 0 < y then NegInf else PosInf)"
| "float_mul PosInf PosInf = PosInf"
| "float_mul PosInf NegInf = NegInf"
| "float_mul NegInf PosInf = NegInf"
| "float_mul NegInf NegInf = PosInf"

text \<open>
  \<^verbatim>\<open>a / b\<close> on Python integers: the correctly rounded quotient, \<^verbatim>\<open>ZeroDivisionError\<close> for a
  zero divisor, \<^verbatim>\<open>OverflowError\<close> when the quotient is too large for a float.
\<close>

definition int_true_div :: "int \<Rightarrow> int \<Rightarrow> py_error + py_float" where
  "int_true_div a b =
     (if b = 0 then Inl ZeroDivisionError
      else let r = binary64_round (of_int a / of_int b)
           in if 2 ^ 1024 \<le> \<bar>r\<bar> then Inl OverflowError else Inr (Finite r))"

subsection \<open>The new spacing\<close>

text \<open>
  One entry of the list of lines 24 to 28:
  \<^verbatim>\<open>original_spacing[k] * (original_size[k] / new_size[k])\<close>, its operands read from left
  to right.
\<close>

definition axis_spacing :: "py_float list \<Rightarrow> int list \<Rightarrow> int list \<Rightarrow> nat \<Rightarrow> py_error + py_float" where
  "axis_spacing original_spacing original_size new_size k =
     (case getitem original_spacing k of
        Inl e \<Rightarrow> Inl e
      | Inr s \<Rightarrow>
          (case getitem original_size k of
             Inl e \<Rightarrow> Inl e
           | Inr a \<Rightarrow>
               (case getitem new_size k of
                  Inl e \<Rightarrow> Inl e
                | Inr b \<Rightarrow>
                    (case int_true_div a b of
                       Inl e \<Rightarrow> Inl e
                     | Inr q \<Rightarrow> Inr (float_mul s q)))))"

definition new_spacing :: "py_float list \<Rightarrow> int list \<Rightarrow> int list \<Rightarrow> py_error + py_float list" where
  "new_spacing original_spacing original_size new_size =
     (case axis_spacing original_spacing original_size new_size 0 of
        Inl e \<Rightarrow> Inl e
      | Inr x0 \<Rightarrow>
          (case axis_spacing original_spacing original_size new_size 1 of
             Inl e \<Rightarrow> Inl e
           | Inr x1 \<Rightarrow>
               (if length new_size > 2 then
                  (case axis_spacing original_spacing original_size new_size 2 of
                     Inl e \<Rightarrow> Inl e
                   | Inr x2 \<Rightarrow> Inr [x0, x1, x2])
                else Inr [x0, x1, Finite 1])))"

subsection \<open>Images, metadata and files\<close>

text \<open>
  What the program reads of the image \<^verbatim>\<open>sitk.ReadImage(image_path)\<close> returned; \<open>voxels\<close>
  stands for the voxel data, which only SimpleITK touches.
\<close>

record 'v sitk_image =
  GetSize :: "int list"
  GetSpacing :: "py_float list"
  GetDirection :: "py_float list"
  GetOrigin :: "py_float list"
  GetPixelID :: int
  voxels :: 'v

text \<open>The values of the metadata dictionary: a tuple of integers or a tuple of floats.\<close>

datatype json_value = IntTuple "int list" | FloatTuple "py_float list"

datatype 'r file_content = ImageFile 'r | JsonFile "(string \<times> json_value) list"

record 'r resize_output =
  returned :: "string \<times> string"
  written :: "(string \<times> 'r file_content) list"

text \<open>Lines 52 and 53: the output format, given or taken from the path of the source.\<close>

definition effective_output_format :: "string \<Rightarrow> string option \<Rightarrow> string" where
  "effective_output_format image_path output_format =
     (case output_format of
        None \<Rightarrow> drop 1 (snd (splitext image_path))
      | Some fmt \<Rightarrow> fmt)"

text \<open>
  \<^verbatim>\<open>resize_image\<close>. \<^verbatim>\<open>sitk.Resample\<close> and \<^verbatim>\<open>sitk.WriteImage\<close> belong to SimpleITK and are
  parameters that may raise. \<open>img\<close> is the source's \<^verbatim>\<open>image\<close>, as \<^verbatim>\<open>sitk.ReadImage\<close> returned
  it; \<open>Resample\<close> is given it, the new size and the new spacing (its other arguments are
  constants or read from the image). The metadata is a dictionary, kept in the order of its
  keys. \<open>json_dump\<close> stands for lines 61 and 62, which open the sidecar for writing and hand
  the dictionary to \<^verbatim>\<open>json.dump\<close>; it is a parameter too, and may raise. When the operation
  raises, the files written before are not reported.
\<close>

definition resize_image ::
  "('v sitk_image \<Rightarrow> int list \<Rightarrow> py_float list \<Rightarrow> py_error + 'r) \<Rightarrow> ('r \<Rightarrow> string \<Rightarrow> py_error + unit)
    \<Rightarrow> (string \<Rightarrow> (string \<times> json_value) list \<Rightarrow> py_error + unit)
    \<Rightarrow> 'v sitk_image \<Rightarrow> string \<Rightarrow> int list \<Rightarrow> string \<Rightarrow> string option
    \<Rightarrow> py_error + 'r resize_output" where
  "resize_image Resample WriteImage json_dump img image_path new_size output_path output_format =
     (let original_size = GetSize img;
          original_spacing = GetSpacing img
      in case new_spacing original_spacing original_size new_size of
        Inl e \<Rightarrow> Inl e
      | Inr spacing \<Rightarrow>
          (case Resample img new_size spacing of
             Inl e \<Rightarrow> Inl e
           | Inr resized_image \<Rightarrow>
               let metadata = [(''original_size'', IntTuple original_size),
                               (''original_spacing'', FloatTuple original_spacing),
                               (''original_direction'', FloatTuple (GetDirection img)),
                               (''original_origin'', FloatTuple (GetOrigin img))];
                   fmt = effective_output_format image_path output_format;
                   base_name = fst (splitext (basename image_path));
                   output_image_path = join output_path (base_name @ ''_resized.'' @ fmt);
                   output_meta_path = join output_path (base_name @ ''_resized_meta.json'')
               in (case WriteImage resized_image output_image_path of
                     Inl e \<Rightarrow> Inl e
                   | Inr u \<Rightarrow>
                       (case json_dump output_meta_path metadata of
                          Inl e \<Rightarrow> Inl e
                        | Inr u' \<Rightarrow>
                            Inr \<lparr>returned = (output_image_path, output_meta_path),
                                 written = [(output_image_path, ImageFile resized_image),
                                            (output_meta_path, JsonFile metadata)]\<rparr>))))"

subsection \<open>The wording of the specification\<close>

text \<open>
  The specification describes the derived output format as the part of the file name after
  its first dot. This definition follows those words (it is not taken from the source) and
  is compared with \<open>effective_output_format\<close> below.
\<close>

definition part_after_first_dot :: "string \<Rightarrow> string" where
  "part_after_first_dot filename = drop 1 (dropWhile (\<lambda>c. c \<noteq> CHR ''.'') filename)"

subsection \<open>The normalisation of a slice\<close>

text \<open>
  The elements of an array in row-major order: the index tuples of a shape, and the values
  read at them.
\<close>

fun index_tuples :: "int list \<Rightarrow> int list list" where
  "index_tuples [] = [[]]"
| "index_tuples (extent # rest) =
     concat (map (\<lambda>i. map (\<lambda>idx. i # idx) (index_tuples rest)) [0..extent - 1])"

definition array_values :: "'a ndarray \<Rightarrow> 'a list" where
  "array_values array = map (item array) (index_tuples (shape array))"

text \<open>
  Modelled from the spec: the value \<^verbatim>\<open>cv2.normalize\<close> of OpenCV, which is not part of the
  sources, gives one pixel in the call of line 105 (bounds 0 and 255, \<^verbatim>\<open>NORM_MINMAX\<close>,
  \<^verbatim>\<open>CV_8U\<close>). The specification describes it as min-max normalisation, the linear remapping
  of the observed value range \<open>[lo, hi]\<close> to \<open>[0, 255]\<close>, quantised to 8-bit unsigned: \<open>v\<close> maps
  to \<open>(v - lo) * 255 / (hi - lo)\<close>, rounded to the nearest integer and kept within
  \<open>[0, 255]\<close>. When the range is empty (\<open>hi = lo\<close>, a constant slice) the remapping has no
  scale; OpenCV then takes the scale 0, so every value maps to the lower bound 0.
\<close>

definition minmax_u8 :: "rat \<Rightarrow> rat \<Rightarrow> rat \<Rightarrow> nat" where
  "minmax_u8 lo hi v =
     (if hi \<le> lo then 0
      else nat (max 0 (min 255 (round_half_even ((v - lo) * 255 / (hi - lo))))))"

text \<open>
  Modelled from the spec: \<^verbatim>\<open>cv2.normalize(slice_data, None, 0, 255, cv2.NORM_MINMAX,
  dtype=cv2.CV_8U)\<close> on a whole slice, which is not part of the sources: every pixel is
  remapped by \<open>minmax_u8\<close> with the minimum and the maximum observed in the slice; the shape
  is kept. Pixel values are taken as exact rationals.
\<close>

definition normalize_minmax :: "rat ndarray \<Rightarrow> nat ndarray" where
  "normalize_minmax src =
     (let vs = array_values src
      in if vs = [] then \<lparr>shape = shape src, item = (\<lambda>idx. 0)\<rparr>
         else \<lparr>shape = shape src,
               item = (\<lambda>idx. minmax_u8 (Min (set vs)) (Max (set vs)) (item src idx))\<rparr>)"

section \<open>Properties of the slice-extraction operation\<close>

subsection \<open>The range of a view and the slices collected\<close>

lemma set_py_range: "set (py_range a b) = {i. a \<le> i \<and> i < b}"
  by (auto simp: py_range_def)

lemma length_py_range: "length (py_range a b) = nat (b - a)"
  by (simp add: py_range_def)

lemma set_window:
  "set (window c n e) = {i. max 0 (c - n div 2) \<le> i \<and> i < min e (c + n div 2 + 1)}"
  by (simp add: window_def set_py_range Let_def)

lemma window_in_bounds: "i \<in> set (window c n e) \<Longrightarrow> 0 \<le> i \<and> i < e"
  by (simp add: set_window)

lemma length_window:
  "length (window c n e) = nat (min e (c + n div 2 + 1) - max 0 (c - n div 2))"
  by (simp add: window_def length_py_range Let_def)

lemma window_sorted_distinct: "sorted (window c n e) \<and> distinct (window c n e)"
  by (simp add: window_def py_range_def Let_def)

lemma window_eq_clipped:
  "window c n e = filter (\<lambda>i. 0 \<le> i \<and> i \<le> e - 1) [c - n div 2..c + n div 2]"
proof (rule sorted_distinct_set_unique)
  show "set (window c n e) = set (filter (\<lambda>i. 0 \<le> i \<and> i \<le> e - 1) [c - n div 2..c + n div 2])"
    by (auto simp: set_window)
qed (simp_all add: window_sorted_distinct sorted_wrt_filter)

lemma window_empty: "min e (c + n div 2 + 1) \<le> max 0 (c - n div 2) \<Longrightarrow> window c n e = []"
  by (simp add: window_def py_range_def Let_def)

lemma take_plane_in_range:
  "3 \<le> length (shape a) \<Longrightarrow> 0 \<le> i \<Longrightarrow> i < shape a ! axis \<Longrightarrow>
     take_plane a axis i = Inr (plane_at a axis i)"
  by (simp add: take_plane_def Let_def)

lemma append_slices_in_range:
  "3 \<le> length (shape a) \<Longrightarrow> \<forall>i\<in>set js. 0 \<le> i \<and> i < shape a ! axis \<Longrightarrow>
     append_slices a axis view js sl =
       Inr (sl @ map (\<lambda>i. (slice_name view i, plane_at a axis i)) js)"
  by (induction js arbitrary: sl) (simp_all add: take_plane_in_range)

lemma view_branch_in_range:
  "3 \<le> length (shape a) \<Longrightarrow> axis < length loc \<Longrightarrow> axis < length (shape a) \<Longrightarrow>
     view_branch a loc n view axis sl =
       Inr (sl @ map (\<lambda>i. (slice_name view i, plane_at a axis i))
                   (window (loc ! axis) n (shape a ! axis)))"
  by (simp add: view_branch_def getitem_def append_slices_in_range window_in_bounds)

lemma view_loop_3d:
  "length (shape a) = 3 \<Longrightarrow> length loc = 3 \<Longrightarrow>
     view_loop a loc n views [] =
       Inr (map (\<lambda>i. (slice_name ''axial'' i, plane_at a 0 i)) (window (loc ! 0) n (shape a ! 0)) @
            map (\<lambda>i. (slice_name ''coronal'' i, plane_at a 1 i)) (window (loc ! 1) n (shape a ! 1)) @
            map (\<lambda>i. (slice_name ''sagittal'' i, plane_at a 2 i)) (window (loc ! 2) n (shape a ! 2)))"
  by (simp add: views_def view_step_def view_branch_in_range)

lemma save_loop_returns:
  assumes "\<forall>(name, d)\<in>set sl. nrm d = Inr (nf d)" and "\<forall>path v. wr path v = Inr (ok path v)"
  shows "save_loop nrm wr (Some dir) base sl w =
     Inr \<lparr>files = files w @ filter (\<lambda>(path, v). ok path v)
                 (map (\<lambda>(name, d). (join dir (base @ ''_'' @ name @ ''.png''), nf d)) sl),
          output_files = output_files w @ map (\<lambda>(name, d). join dir (base @ ''_'' @ name @ ''.png'')) sl\<rparr>"
  using assms by (induction sl arbitrary: w) (auto simp: Let_def)

lemma save_loop_normalize_raises:
  "nrm d = Inl e \<Longrightarrow> save_loop nrm wr output_path base ((name, d) # rest) w = Inl e"
  by simp

lemma collect_slices_3d:
  "length (shape a) = 3 \<Longrightarrow> length (center_location a location) = 3 \<Longrightarrow>
     collect_slices a location n =
       Inr (map (\<lambda>i. (slice_name ''axial'' i, plane_at a 0 i))
              (window (center_location a location ! 0) n (shape a ! 0)) @
            map (\<lambda>i. (slice_name ''coronal'' i, plane_at a 1 i))
              (window (center_location a location ! 1) n (shape a ! 1)) @
            map (\<lambda>i. (slice_name ''sagittal'' i, plane_at a 2 i))
              (window (center_location a location ! 2) n (shape a ! 2)))"
  by (simp add: collect_slices_def view_loop_3d)

lemma default_center_single_voxel:
  "axis < length (shape a) \<Longrightarrow> shape a ! axis = 1 \<Longrightarrow> center_location a None ! axis = 0"
  by (simp add: center_location_def)

lemma window_single_voxel: "0 \<le> n \<Longrightarrow> window 0 n 1 = [0]"
proof -
  assume "0 \<le> n"
  then have "0 \<le> n div 2" by simp
  then have "max 0 (0 - n div 2) = 0" and "min 1 (0 + n div 2 + 1) = 1" by simp_all
  then show ?thesis by (simp add: window_def py_range_def)
qed

lemma str_int_digit:
  "str_int 0 = ''0''" "str_int 1 = ''1''" "str_int 2 = ''2''" "str_int 3 = ''3''"
  "str_int 4 = ''4''" "str_int 5 = ''5''" "str_int 6 = ''6''" "str_int 7 = ''7''"
  "str_int 8 = ''8''" "str_int 9 = ''9''"
  by (simp_all add: str_int_def str_nat.simps digit_char_def)

lemma extract_of_collected:
  assumes "collect_slices a location n = Inr sl"
    and "\<forall>(name, d)\<in>set sl. nrm d = Inr (nf d)" and "\<forall>path v. wr path v = Inr (ok path v)"
  shows "extract_2d_slices nrm wr a p location n (Some dir) =
     Inr \<lparr>files = filter (\<lambda>(path, v). ok path v)
                 (map (\<lambda>(name, d). (join dir (fst (splitext (basename p)) @ ''_'' @ name @ ''.png''), nf d)) sl),
          output_files = map (\<lambda>(name, d). join dir (fst (splitext (basename p)) @ ''_'' @ name @ ''.png'')) sl\<rparr>"
  using assms(1) save_loop_returns [OF assms(2,3)]
  by (simp add: extract_2d_slices_def Let_def)

lemma collected_planes:
  assumes "length (shape a) = 3" and "length (center_location a location) = 3"
    and "collect_slices a location n = Inr sl" and "(name, d) \<in> set sl"
  shows "\<exists>axis i. d = plane_at a axis i"
  using assms(3,4) unfolding collect_slices_3d [OF assms(1,2)] by fastforce

lemma extract_3d_returns:
  assumes "length (shape a) = 3" and "length (center_location a location) = 3"
    and "\<forall>axis i. nrm (plane_at a axis i) = Inr (nf (plane_at a axis i))"
    and "\<forall>path v. wr path v = Inr (ok path v)"
  shows "\<exists>sl. collect_slices a location n = Inr sl
     \<and> extract_2d_slices nrm wr a p location n (Some dir) =
         Inr \<lparr>files = filter (\<lambda>(path, v). ok path v)
                 (map (\<lambda>(name, d). (join dir (fst (splitext (basename p)) @ ''_'' @ name @ ''.png''), nf d)) sl),
              output_files = map (\<lambda>(name, d). join dir (fst (splitext (basename p)) @ ''_'' @ name @ ''.png'')) sl\<rparr>"
proof -
  obtain sl where sl: "collect_slices a location n = Inr sl"
    using collect_slices_3d [OF assms(1,2)] by blast
  have "\<forall>(name, d)\<in>set sl. nrm d = Inr (nf d)"
    using collected_planes [OF assms(1,2) sl] assms(3) by fastforce
  from extract_of_collected [OF sl this assms(4)] sl show ?thesis by blast
qed

lemma window_unclipped:
  "0 \<le> c - n div 2 \<Longrightarrow> c + n div 2 < e \<Longrightarrow> window c n e = [c - n div 2..c + n div 2]"
proof -
  assume "0 \<le> c - n div 2" and "c + n div 2 < e"
  then have "max 0 (c - n div 2) = c - n div 2" and "min e (c + n div 2 + 1) = c + n div 2 + 1"
    by simp_all
  then show ?thesis by (simp add: window_def py_range_def)
qed

lemma count_below: "length (filter (\<lambda>i. i < c) [c - h..c + h]) = nat h"
proof -
  have "{i. i < c} \<inter> set [c - h..c + h] = {c - h..<c}" by auto
  then show ?thesis by (simp add: distinct_length_filter)
qed

lemma count_above: "length (filter (\<lambda>i. c < i) [c - h..c + h]) = nat h"
proof -
  have "{i. c < i} \<inter> set [c - h..c + h] = {c<..c + h}" by auto
  then show ?thesis by (simp add: distinct_length_filter)
qed

lemma join_same_prefix_inj:
  "join dir (base @ CHR ''_'' # s) = join dir (base @ CHR ''_'' # t) \<Longrightarrow> s = t"
  by (cases base) (auto simp: join_def split: if_splits)

subsection \<open>Indexing stays inside the array\<close>

text \<open>
  Claim C10. For a three-dimensional array and a center of three integers (the one given, or
  the default), and for every integer slice count \<open>n\<close>: every index \<open>i\<close> of a view's range
  satisfies \<open>0 \<le> i < extent\<close> of the view's axis, so the subscript \<^verbatim>\<open>array[i, :, :]\<close> (and
  its two siblings) never raises and never wraps around, and the collection of the slices
  returns; a view whose clipped range is empty (\<open>end \<le> start\<close>) adds no slice.
\<close>

theorem slice_indices_in_bounds:
  assumes "length (shape a) = 3" and "length (center_location a location) = 3"
  shows "(\<forall>axis<3. \<forall>i\<in>set (window (center_location a location ! axis) n (shape a ! axis)).
            0 \<le> i \<and> i < shape a ! axis \<and> take_plane a axis i = Inr (plane_at a axis i))
       \<and> (\<exists>sl. collect_slices a location n = Inr sl)
       \<and> (\<forall>axis<3. \<forall>view sl.
            min (shape a ! axis) (center_location a location ! axis + n div 2 + 1)
              \<le> max 0 (center_location a location ! axis - n div 2)
            \<longrightarrow> view_branch a (center_location a location) n view axis sl = Inr sl)"
proof (intro conjI allI impI ballI)
  fix axis i
  assume "axis < 3" and i: "i \<in> set (window (center_location a location ! axis) n (shape a ! axis))"
  from window_in_bounds [OF i] show "0 \<le> i" and "i < shape a ! axis" by simp_all
  with assms show "take_plane a axis i = Inr (plane_at a axis i)"
    using window_in_bounds [OF i] by (simp add: take_plane_in_range)
next
  from assms show "\<exists>sl. collect_slices a location n = Inr sl"
    by (simp add: collect_slices_def view_loop_3d)
next
  fix axis :: nat and view sl
  assume "axis < 3"
    and "min (shape a ! axis) (center_location a location ! axis + n div 2 + 1)
            \<le> max 0 (center_location a location ! axis - n div 2)"
  with assms show "view_branch a (center_location a location) n view axis sl = Inr sl"
    by (simp add: view_branch_in_range window_empty)
qed

theorem slice_indices_in_bounds_witness:
  "length (shape \<lparr>shape = [10, 10, 10], item = (\<lambda>idx. 0::int)\<rparr>) = 3
   \<and> length (center_location \<lparr>shape = [10, 10, 10], item = (\<lambda>idx. 0::int)\<rparr> (Some [0, 5, 100])) = 3
   \<and> 1 \<in> set (window 0 3 10)
   \<and> take_plane \<lparr>shape = [10, 10, 10], item = (\<lambda>idx. 0::int)\<rparr> 0 1
       = Inr (plane_at \<lparr>shape = [10, 10, 10], item = (\<lambda>idx. 0::int)\<rparr> 0 1)
   \<and> (\<exists>sl. collect_slices \<lparr>shape = [10, 10, 10], item = (\<lambda>idx. 0::int)\<rparr> (Some [0, 5, 100]) 3 = Inr sl)
   \<and> view_branch \<lparr>shape = [10, 10, 10], item = (\<lambda>idx. 0::int)\<rparr> [0, 5, 100] 3 ''sagittal'' 2 [] = Inr []"
proof -
  let ?a = "\<lparr>shape = [10, 10, 10], item = (\<lambda>idx. 0::int)\<rparr>"
  have h1: "length (shape ?a) = 3" by simp
  have h2: "length (center_location ?a (Some [0, 5, 100])) = 3" by (simp add: center_location_def)
  have w: "(1::int) \<in> set (window 0 3 10)" by (simp add: set_window)
  note t = slice_indices_in_bounds [OF h1 h2, of 3]
  from t have a: "\<forall>axis<3. \<forall>i\<in>set (window (center_location ?a (Some [0, 5, 100]) ! axis) 3 (shape ?a ! axis)).
            0 \<le> i \<and> i < shape ?a ! axis \<and> take_plane ?a axis i = Inr (plane_at ?a axis i)" by blast
  from a [rule_format, of 0 1] w have a': "take_plane ?a 0 1 = Inr (plane_at ?a 0 1)"
    by (simp add: center_location_def)
  from t have b: "\<exists>sl. collect_slices ?a (Some [0, 5, 100]) 3 = Inr sl" by blast
  from t have c: "\<forall>axis<3. \<forall>view sl.
            min (shape ?a ! axis) (center_location ?a (Some [0, 5, 100]) ! axis + 3 div 2 + 1)
              \<le> max 0 (center_location ?a (Some [0, 5, 100]) ! axis - 3 div 2)
            \<longrightarrow> view_branch ?a (center_location ?a (Some [0, 5, 100])) 3 view axis sl = Inr sl" by blast
  from c [rule_format, of 2 "''sagittal''" "[]"]
  have c': "view_branch ?a [0, 5, 100] 3 ''sagittal'' 2 [] = Inr []"
    by (simp add: center_location_def)
  from h1 h2 w a' b c' show ?thesis by blast
qed

subsection \<open>The slices of a view\<close>

text \<open>
  Claim C5, amended. For a three-dimensional array and a center of three integers, the slices
  collected for a view are those of the integers of the inclusive window
  \<open>[c - n div 2, c + n div 2]\<close> that lie in \<open>[0, e - 1]\<close>, in ascending order, each
  named \<^verbatim>\<open><view>_<index>\<close>, for the center \<open>c\<close> and the extent \<open>e\<close> of the view's axis.
  With a center at index 0 and \<open>n = 3\<close> the window of a non-empty axis holds index 0 and no
  negative index. An axis of a single voxel with the default center yields exactly the
  slice 0 when \<open>0 \<le> n\<close>. (For a negative \<open>n\<close> the window is empty and the view yields no
  slice, which is why the last part of the claim is restricted to \<open>0 \<le> n\<close>.)
\<close>

theorem view_window_clipped:
  assumes "length (shape a) = 3" and "length (center_location a location) = 3"
  shows "collect_slices a location n =
           Inr (map (\<lambda>i. (slice_name ''axial'' i, plane_at a 0 i))
                  (filter (\<lambda>i. 0 \<le> i \<and> i \<le> shape a ! 0 - 1)
                     [center_location a location ! 0 - n div 2..center_location a location ! 0 + n div 2]) @
                map (\<lambda>i. (slice_name ''coronal'' i, plane_at a 1 i))
                  (filter (\<lambda>i. 0 \<le> i \<and> i \<le> shape a ! 1 - 1)
                     [center_location a location ! 1 - n div 2..center_location a location ! 1 + n div 2]) @
                map (\<lambda>i. (slice_name ''sagittal'' i, plane_at a 2 i))
                  (filter (\<lambda>i. 0 \<le> i \<and> i \<le> shape a ! 2 - 1)
                     [center_location a location ! 2 - n div 2..center_location a location ! 2 + n div 2]))
       \<and> (\<forall>axis<3. center_location a location ! axis = 0 \<and> n = 3 \<and> 0 < shape a ! axis \<longrightarrow>
             0 \<in> set (window (center_location a location ! axis) n (shape a ! axis))
             \<and> (\<forall>i\<in>set (window (center_location a location ! axis) n (shape a ! axis)). 0 \<le> i))
       \<and> (\<forall>axis<3. shape a ! axis = 1 \<and> location = None \<and> 0 \<le> n \<longrightarrow>
             window (center_location a location ! axis) n (shape a ! axis) = [0])"
proof (intro conjI allI impI)
  from assms show "collect_slices a location n =
           Inr (map (\<lambda>i. (slice_name ''axial'' i, plane_at a 0 i))
                  (filter (\<lambda>i. 0 \<le> i \<and> i \<le> shape a ! 0 - 1)
                     [center_location a location ! 0 - n div 2..center_location a location ! 0 + n div 2]) @
                map (\<lambda>i. (slice_name ''coronal'' i, plane_at a 1 i))
                  (filter (\<lambda>i. 0 \<le> i \<and> i \<le> shape a ! 1 - 1)
                     [center_location a location ! 1 - n div 2..center_location a location ! 1 + n div 2]) @
                map (\<lambda>i. (slice_name ''sagittal'' i, plane_at a 2 i))
                  (filter (\<lambda>i. 0 \<le> i \<and> i \<le> shape a ! 2 - 1)
                     [center_location a location ! 2 - n div 2..center_location a location ! 2 + n div 2]))"
    by (simp only: collect_slices_3d window_eq_clipped)
next
  fix axis :: nat
  assume "axis < 3"
    and h: "center_location a location ! axis = 0 \<and> n = 3 \<and> 0 < shape a ! axis"
  then show "0 \<in> set (window (center_location a location ! axis) n (shape a ! axis))"
    by (simp add: set_window)
  show "\<forall>i\<in>set (window (center_location a location ! axis) n (shape a ! axis)). 0 \<le> i"
    by (simp add: set_window)
next
  fix axis :: nat
  assume "axis < 3" and h: "shape a ! axis = 1 \<and> location = None \<and> 0 \<le> n"
  with assms have "center_location a location ! axis = 0"
    by (simp add: default_center_single_voxel)
  with h show "window (center_location a location ! axis) n (shape a ! axis) = [0]"
    by (simp add: window_single_voxel)
qed

theorem view_window_clipped_witness:
  "length (shape \<lparr>shape = [1, 4, 4], item = (\<lambda>idx. 0::int)\<rparr>) = 3
   \<and> length (center_location \<lparr>shape = [1, 4, 4], item = (\<lambda>idx. 0::int)\<rparr> None) = 3
   \<and> (\<exists>sl. collect_slices \<lparr>shape = [1, 4, 4], item = (\<lambda>idx. 0::int)\<rparr> None 3 = Inr sl
        \<and> map fst sl = [''axial_0'', ''coronal_1'', ''coronal_2'', ''coronal_3'',
                          ''sagittal_1'', ''sagittal_2'', ''sagittal_3''])
   \<and> 0 \<in> set (window 0 3 1)
   \<and> window (center_location \<lparr>shape = [1, 4, 4], item = (\<lambda>idx. 0::int)\<rparr> None ! 0) 3 1 = [0]"
proof -
  let ?a = "\<lparr>shape = [1, 4, 4], item = (\<lambda>idx. 0::int)\<rparr>"
  have h1: "length (shape ?a) = 3" by simp
  have h2: "length (center_location ?a None) = 3" by (simp add: center_location_def)
  note t = view_window_clipped [OF h1 h2, of 3]
  have c0: "center_location ?a None = [0, 2, 2]" by (simp add: center_location_def)
  from t have "collect_slices ?a None 3 =
           Inr (map (\<lambda>i. (slice_name ''axial'' i, plane_at ?a 0 i))
                  (filter (\<lambda>i. 0 \<le> i \<and> i \<le> shape ?a ! 0 - 1)
                     [center_location ?a None ! 0 - 3 div 2..center_location ?a None ! 0 + 3 div 2]) @
                map (\<lambda>i. (slice_name ''coronal'' i, plane_at ?a 1 i))
                  (filter (\<lambda>i. 0 \<le> i \<and> i \<le> shape ?a ! 1 - 1)
                     [center_location ?a None ! 1 - 3 div 2..center_location ?a None ! 1 + 3 div 2]) @
                map (\<lambda>i. (slice_name ''sagittal'' i, plane_at ?a 2 i))
                  (filter (\<lambda>i. 0 \<le> i \<and> i \<le> shape ?a ! 2 - 1)
                     [center_location ?a None ! 2 - 3 div 2..center_location ?a None ! 2 + 3 div 2]))"
    by blast
  then have a: "\<exists>sl. collect_slices ?a None 3 = Inr sl
        \<and> map fst sl = [''axial_0'', ''coronal_1'', ''coronal_2'', ''coronal_3'',
                          ''sagittal_1'', ''sagittal_2'', ''sagittal_3'']"
    by (simp add: c0 upto_rec1 slice_name_def str_int_digit)
  from t have "\<forall>axis<3. center_location ?a None ! axis = 0 \<and> (3::int) = 3 \<and> 0 < shape ?a ! axis \<longrightarrow>
             0 \<in> set (window (center_location ?a None ! axis) 3 (shape ?a ! axis))
             \<and> (\<forall>i\<in>set (window (center_location ?a None ! axis) 3 (shape ?a ! axis)). 0 \<le> i)"
    by blast
  from this [rule_format, of 0] have b: "0 \<in> set (window 0 3 1)" by (simp add: c0)
  from t have "\<forall>axis<3. shape ?a ! axis = 1 \<and> (None :: int list option) = None \<and> (0::int) \<le> 3 \<longrightarrow>
             window (center_location ?a None ! axis) 3 (shape ?a ! axis) = [0]"
    by blast
  from this [rule_format, of 0] have c: "window (center_location ?a None ! 0) 3 1 = [0]" by simp
  from h1 h2 a b c show ?thesis by blast
qed

theorem single_voxel_negative_count_counterexample:
  "center_location \<lparr>shape = [1, 1, 1], item = (\<lambda>idx. 0::int)\<rparr> None = [0, 0, 0]
   \<and> collect_slices \<lparr>shape = [1, 1, 1], item = (\<lambda>idx. 0::int)\<rparr> None (- 1) = Inr []"
  by (simp add: center_location_def collect_slices_def views_def view_step_def view_branch_def
      getitem_def window_def py_range_def)

subsection \<open>A center outside the volume\<close>

text \<open>
  Claim C4, amended. When the center's coordinate on a view's axis is out of range
  (negative, or at least the extent), selecting the slices does not fail: on a
  three-dimensional array with a center of three integers no index error is raised, and
  with an output directory the operation returns whenever \<^verbatim>\<open>cv2.normalize\<close> and
  \<^verbatim>\<open>cv2.imwrite\<close> do not raise. For that view it emits exactly the indices of the window
  \<open>[c - n div 2, c + n div 2]\<close> that lie inside \<open>[0, e - 1]\<close>: the slices at the boundary when
  the window still reaches the axis (the last index \<open>e - 1\<close> for a center beyond the end,
  index 0 for a negative center), and no slice at all when the window lies wholly outside
  the axis, as it always does for \<open>n \<le> 1\<close>.
\<close>

theorem out_of_range_center_clipped:
  assumes "length (shape a) = 3" and "length loc = 3" and "axis < 3"
    and "loc ! axis < 0 \<or> shape a ! axis \<le> loc ! axis"
  shows "(\<exists>slices. collect_slices a (Some loc) n = Inr slices)
       \<and> ((\<forall>ax i. cv2_normalize (plane_at a ax i) = Inr (nf (plane_at a ax i)))
            \<and> (\<forall>path v. cv2_imwrite path v = Inr (ok path v)) \<longrightarrow>
          (\<exists>w. extract_2d_slices cv2_normalize cv2_imwrite a p (Some loc) n (Some dir) = Inr w))
       \<and> view_branch a loc n view axis sl =
           Inr (sl @ map (\<lambda>i. (slice_name view i, plane_at a axis i))
                  (filter (\<lambda>i. 0 \<le> i \<and> i \<le> shape a ! axis - 1)
                     [loc ! axis - n div 2..loc ! axis + n div 2]))
       \<and> (loc ! axis + n div 2 < 0 \<or> shape a ! axis \<le> loc ! axis - n div 2 \<longrightarrow>
            view_branch a loc n view axis sl = Inr sl)
       \<and> (n \<le> 1 \<longrightarrow> view_branch a loc n view axis sl = Inr sl)
       \<and> (shape a ! axis \<le> loc ! axis \<and> loc ! axis - n div 2 \<le> shape a ! axis - 1 \<and> 0 < shape a ! axis \<longrightarrow>
            shape a ! axis - 1 \<in> set (window (loc ! axis) n (shape a ! axis)))
       \<and> (loc ! axis < 0 \<and> 0 \<le> loc ! axis + n div 2 \<and> 0 < shape a ! axis \<longrightarrow>
            0 \<in> set (window (loc ! axis) n (shape a ! axis)))"
proof -
  let ?c = "loc ! axis" and ?e = "shape a ! axis"
  have len: "length (center_location a (Some loc)) = 3"
    using assms(2) by (simp add: center_location_def)
  have vb: "view_branch a loc n view axis sl =
      Inr (sl @ map (\<lambda>i. (slice_name view i, plane_at a axis i)) (window ?c n ?e))"
    using assms(1-3) by (simp add: view_branch_in_range)
  have 0: "\<exists>slices. collect_slices a (Some loc) n = Inr slices"
    using collect_slices_3d [OF assms(1) len] by blast
  have 1: "(\<forall>ax i. cv2_normalize (plane_at a ax i) = Inr (nf (plane_at a ax i)))
            \<and> (\<forall>path v. cv2_imwrite path v = Inr (ok path v)) \<longrightarrow>
          (\<exists>w. extract_2d_slices cv2_normalize cv2_imwrite a p (Some loc) n (Some dir) = Inr w)"
  proof
    assume h: "(\<forall>ax i. cv2_normalize (plane_at a ax i) = Inr (nf (plane_at a ax i)))
            \<and> (\<forall>path v. cv2_imwrite path v = Inr (ok path v))"
    then have n: "\<forall>ax i. cv2_normalize (plane_at a ax i) = Inr (nf (plane_at a ax i))"
      and w: "\<forall>path v. cv2_imwrite path v = Inr (ok path v)" by simp_all
    from extract_3d_returns [OF assms(1) len n w]
    show "\<exists>w. extract_2d_slices cv2_normalize cv2_imwrite a p (Some loc) n (Some dir) = Inr w"
      by blast
  qed
  have 2: "view_branch a loc n view axis sl =
           Inr (sl @ map (\<lambda>i. (slice_name view i, plane_at a axis i))
                  (filter (\<lambda>i. 0 \<le> i \<and> i \<le> ?e - 1) [?c - n div 2..?c + n div 2]))"
    using vb by (simp only: window_eq_clipped)
  have 3: "?c + n div 2 < 0 \<or> ?e \<le> ?c - n div 2 \<longrightarrow> view_branch a loc n view axis sl = Inr sl"
  proof
    assume "?c + n div 2 < 0 \<or> ?e \<le> ?c - n div 2"
    then have "window ?c n ?e = []" by (intro window_empty) auto
    with vb show "view_branch a loc n view axis sl = Inr sl" by simp
  qed
  have 4: "n \<le> 1 \<longrightarrow> view_branch a loc n view axis sl = Inr sl"
  proof
    assume "n \<le> 1"
    then have "n div 2 \<le> 0" by simp
    with assms(4) have "window ?c n ?e = []" by (intro window_empty) auto
    with vb show "view_branch a loc n view axis sl = Inr sl" by simp
  qed
  have 5: "?e \<le> ?c \<and> ?c - n div 2 \<le> ?e - 1 \<and> 0 < ?e \<longrightarrow> ?e - 1 \<in> set (window ?c n ?e)"
    by (auto simp: set_window)
  have 6: "?c < 0 \<and> 0 \<le> ?c + n div 2 \<and> 0 < ?e \<longrightarrow> 0 \<in> set (window ?c n ?e)"
    by (auto simp: set_window)
  from 0 1 2 3 4 5 6 show ?thesis by blast
qed

theorem out_of_range_center_clipped_witness:
  "length (shape \<lparr>shape = [10, 10, 10], item = (\<lambda>idx. 0::int)\<rparr>) = 3
   \<and> length [10, 5, 5 :: int] = 3 \<and> (0::nat) < 3
   \<and> shape \<lparr>shape = [10, 10, 10], item = (\<lambda>idx. 0::int)\<rparr> ! 0 \<le> [10, 5, 5] ! 0
   \<and> (\<exists>slices. collect_slices \<lparr>shape = [10, 10, 10], item = (\<lambda>idx. 0::int)\<rparr>
          (Some [10, 5, 5]) 3 = Inr slices)
   \<and> (\<exists>w. extract_2d_slices (\<lambda>d. Inr d) (\<lambda>path v. Inr True)
             \<lparr>shape = [10, 10, 10], item = (\<lambda>idx. 0::int)\<rparr> ''scan.nii''
             (Some [10, 5, 5]) 3 (Some ''out'') = Inr w)
   \<and> 9 \<in> set (window 10 3 10)"
proof -
  let ?a = "\<lparr>shape = [10, 10, 10], item = (\<lambda>idx. 0::int)\<rparr>"
  let ?nrm = "\<lambda>d :: int ndarray. (Inr d :: py_error + int ndarray)"
  let ?wr = "\<lambda>(path :: string) (v :: int ndarray). (Inr True :: py_error + bool)"
  have h1: "length (shape ?a) = 3" by simp
  have h2: "length [10, 5, 5 :: int] = 3" by simp
  have h3: "(0::nat) < 3" by simp
  have h4: "shape ?a ! 0 \<le> [10, 5, 5] ! 0" by simp
  then have h4': "[10, 5, 5] ! 0 < 0 \<or> shape ?a ! 0 \<le> [10, 5, 5] ! 0" ..
  note t = out_of_range_center_clipped [OF h1 h2 h3 h4', where cv2_normalize = ?nrm
      and nf = "\<lambda>d. d" and cv2_imwrite = ?wr and ok = "\<lambda>path v. True" and p = "''scan.nii''"
      and n = 3 and dir = "''out''" and view = "''axial''" and sl = "[]"]
  from t have s: "\<exists>slices. collect_slices ?a (Some [10, 5, 5]) 3 = Inr slices" by blast
  from t have "(\<forall>ax i. ?nrm (plane_at ?a ax i) = Inr (plane_at ?a ax i))
            \<and> (\<forall>path v. ?wr path v = Inr True) \<longrightarrow>
          (\<exists>w. extract_2d_slices ?nrm ?wr ?a ''scan.nii'' (Some [10, 5, 5]) 3 (Some ''out'') = Inr w)"
    by blast
  then have a: "\<exists>w. extract_2d_slices ?nrm ?wr ?a ''scan.nii'' (Some [10, 5, 5]) 3 (Some ''out'') = Inr w"
    by simp
  from t have "shape ?a ! 0 \<le> [10, 5, 5] ! 0 \<and> [10, 5, 5] ! 0 - 3 div 2 \<le> shape ?a ! 0 - 1 \<and> 0 < shape ?a ! 0 \<longrightarrow>
            shape ?a ! 0 - 1 \<in> set (window ([10, 5, 5] ! 0) 3 (shape ?a ! 0))"
    by blast
  then have b: "9 \<in> set (window 10 3 10)" by simp
  from h1 h2 h3 h4 s a b show ?thesis by blast
qed

theorem out_of_range_center_counterexample:
  "\<exists>sl. collect_slices \<lparr>shape = [10, 10, 10], item = (\<lambda>idx. 0::int)\<rparr> (Some [100, 5, 5]) 1 = Inr sl
        \<and> map fst sl = [''coronal_5'', ''sagittal_5'']"
  by (simp add: collect_slices_3d center_location_def window_def py_range_def upto_rec1
      slice_name_def str_int_digit)

subsection \<open>The shape of the window\<close>

lemma unclipped_window_counts:
  assumes "0 \<le> c - n div 2" and "c + n div 2 < e"
  shows "window c n e = [c - n div 2..c + n div 2]
       \<and> length (filter (\<lambda>i. i < c) (window c n e)) = nat (n div 2)
       \<and> length (filter (\<lambda>i. c < i) (window c n e)) = nat (n div 2)"
  using assms by (simp add: window_unclipped count_below count_above)

lemma length_window_le: "length (window c n e) \<le> nat (2 * (n div 2) + 1)"
  by (simp add: length_window)

lemma length_window_odd: "odd n \<Longrightarrow> 0 < n \<Longrightarrow> length (window c n e) \<le> nat n"
proof -
  assume "odd n" and "0 < n"
  then have "2 * (n div 2) + 1 = n" by presburger
  with length_window_le [of c n e] show ?thesis by simp
qed

lemma length_window_even_unclipped:
  "even n \<Longrightarrow> 0 \<le> n \<Longrightarrow> 0 \<le> c - n div 2 \<Longrightarrow> c + n div 2 < e \<Longrightarrow>
     length (window c n e) = nat n + 1"
proof -
  assume "even n" and "0 \<le> n" and "0 \<le> c - n div 2" and "c + n div 2 < e"
  moreover from \<open>even n\<close> have "2 * (n div 2) = n" by presburger
  ultimately show ?thesis by (simp add: window_unclipped)
qed

text \<open>
  Claim C3 expects, for an even slice count \<open>n\<close>, a window of \<open>n\<close> indices with more of them
  on one side of the center than on the other. The code takes the same half-width
  \<open>n div 2\<close> for both bounds, so the window it builds holds one index more than \<open>n\<close> and is
  not asymmetric: for the center 5, \<open>n = 2\<close> and the extent 10 it is \<open>[4, 5, 6]\<close>, three
  indices with one on each side of the center. This is the off-by-one of claim C2, seen
  from the window.
\<close>

theorem even_count_window_not_asymmetric:
  "window 5 2 10 = [4, 5, 6]
   \<and> length (window 5 2 10) = 3
   \<and> length (filter (\<lambda>i. i < 5) (window 5 2 10)) = 1
   \<and> length (filter (\<lambda>i. 5 < i) (window 5 2 10)) = 1"
  by (simp add: window_def py_range_def upto_rec1)

subsection \<open>The default center\<close>

text \<open>
  Claim C7. With no location given, the center is the integer midpoint \<open>extent div 2\<close> of each
  axis of the array: on every three-dimensional array the slices collected are those of the
  windows about \<open>shape[k] div 2\<close>, and the operation behaves as if that center had been given.
  Whenever \<^verbatim>\<open>cv2.normalize\<close> and \<^verbatim>\<open>cv2.imwrite\<close> do not raise, it returns one path
  \<^verbatim>\<open><base>_<view>_<index>.png\<close> in the output directory for each of these slices, and has
  written the files for which \<^verbatim>\<open>cv2.imwrite\<close> reported success. For an array of shape
  \<open>(10, 10, 10)\<close> and \<open>n = 1\<close> the center is \<open>(5, 5, 5)\<close>, and exactly three files, one per view,
  are named: \<^verbatim>\<open><base>_axial_5.png\<close>, \<^verbatim>\<open><base>_coronal_5.png\<close> and \<^verbatim>\<open><base>_sagittal_5.png\<close>.
\<close>

theorem default_center_midpoint:
  assumes "length (shape a) = 3"
  shows "center_location a None = map (\<lambda>e. e div 2) (shape a)
   \<and> collect_slices a None n =
       Inr (map (\<lambda>i. (slice_name ''axial'' i, plane_at a 0 i))
              (window (shape a ! 0 div 2) n (shape a ! 0)) @
            map (\<lambda>i. (slice_name ''coronal'' i, plane_at a 1 i))
              (window (shape a ! 1 div 2) n (shape a ! 1)) @
            map (\<lambda>i. (slice_name ''sagittal'' i, plane_at a 2 i))
              (window (shape a ! 2 div 2) n (shape a ! 2)))
   \<and> extract_2d_slices cv2_normalize cv2_imwrite a p None n out =
       extract_2d_slices cv2_normalize cv2_imwrite a p (Some (map (\<lambda>e. e div 2) (shape a))) n out
   \<and> (shape a = [10, 10, 10] \<and> n = 1 \<longrightarrow>
        center_location a None = [5, 5, 5]
        \<and> collect_slices a None n =
            Inr [(''axial_5'', plane_at a 0 5), (''coronal_5'', plane_at a 1 5),
                 (''sagittal_5'', plane_at a 2 5)])
   \<and> ((\<forall>axis i. cv2_normalize (plane_at a axis i) = Inr (nf (plane_at a axis i)))
        \<and> (\<forall>path v. cv2_imwrite path v = Inr (ok path v)) \<longrightarrow>
      (\<exists>sl. collect_slices a None n = Inr sl
        \<and> extract_2d_slices cv2_normalize cv2_imwrite a p None n (Some dir) =
            Inr \<lparr>files = filter (\<lambda>(path, v). ok path v)
                    (map (\<lambda>(name, d).
                       (join dir (fst (splitext (basename p)) @ ''_'' @ name @ ''.png''), nf d)) sl),
                 output_files =
                    map (\<lambda>(name, d).
                       join dir (fst (splitext (basename p)) @ ''_'' @ name @ ''.png'')) sl\<rparr>)
      \<and> (shape a = [10, 10, 10] \<and> n = 1 \<longrightarrow>
          (\<exists>w. extract_2d_slices cv2_normalize cv2_imwrite a p None n (Some dir) = Inr w
             \<and> output_files w =
                 map (\<lambda>s. join dir (fst (splitext (basename p)) @ ''_'' @ s @ ''.png''))
                   [''axial_5'', ''coronal_5'', ''sagittal_5'']
             \<and> distinct (output_files w)
             \<and> ((\<forall>path v. ok path v) \<longrightarrow>
                   map fst (files w) = output_files w \<and> length (files w) = 3))))"
proof -
  have c: "center_location a None = map (\<lambda>e. e div 2) (shape a)"
    by (simp add: center_location_def)
  have len: "length (center_location a None) = 3" using assms(1) by (simp add: c)
  have nth: "center_location a None ! 0 = shape a ! 0 div 2"
    "center_location a None ! 1 = shape a ! 1 div 2"
    "center_location a None ! 2 = shape a ! 2 div 2"
    using assms(1) by (simp_all add: c)
  have cs: "collect_slices a None n =
       Inr (map (\<lambda>i. (slice_name ''axial'' i, plane_at a 0 i))
              (window (shape a ! 0 div 2) n (shape a ! 0)) @
            map (\<lambda>i. (slice_name ''coronal'' i, plane_at a 1 i))
              (window (shape a ! 1 div 2) n (shape a ! 1)) @
            map (\<lambda>i. (slice_name ''sagittal'' i, plane_at a 2 i))
              (window (shape a ! 2 div 2) n (shape a ! 2)))"
    using collect_slices_3d [OF assms(1) len, of n] by (simp only: nth)
  have same: "extract_2d_slices cv2_normalize cv2_imwrite a p None n out =
       extract_2d_slices cv2_normalize cv2_imwrite a p (Some (map (\<lambda>e. e div 2) (shape a))) n out"
    by (simp add: extract_2d_slices_def collect_slices_def center_location_def)
  have w: "window 5 1 10 = [5]" by (simp add: window_def py_range_def)
  have sl5: "shape a = [10, 10, 10] \<and> n = 1 \<longrightarrow>
        center_location a None = [5, 5, 5]
        \<and> collect_slices a None n =
            Inr [(''axial_5'', plane_at a 0 5), (''coronal_5'', plane_at a 1 5),
                 (''sagittal_5'', plane_at a 2 5)]"
    using cs by (auto simp: c w slice_name_def str_int_digit)
  have run: "(\<forall>axis i. cv2_normalize (plane_at a axis i) = Inr (nf (plane_at a axis i)))
        \<and> (\<forall>path v. cv2_imwrite path v = Inr (ok path v)) \<longrightarrow>
      (\<exists>sl. collect_slices a None n = Inr sl
        \<and> extract_2d_slices cv2_normalize cv2_imwrite a p None n (Some dir) =
            Inr \<lparr>files = filter (\<lambda>(path, v). ok path v)
                    (map (\<lambda>(name, d).
                       (join dir (fst (splitext (basename p)) @ ''_'' @ name @ ''.png''), nf d)) sl),
                 output_files =
                    map (\<lambda>(name, d).
                       join dir (fst (splitext (basename p)) @ ''_'' @ name @ ''.png'')) sl\<rparr>)
      \<and> (shape a = [10, 10, 10] \<and> n = 1 \<longrightarrow>
          (\<exists>w. extract_2d_slices cv2_normalize cv2_imwrite a p None n (Some dir) = Inr w
             \<and> output_files w =
                 map (\<lambda>s. join dir (fst (splitext (basename p)) @ ''_'' @ s @ ''.png''))
                   [''axial_5'', ''coronal_5'', ''sagittal_5'']
             \<and> distinct (output_files w)
             \<and> ((\<forall>path v. ok path v) \<longrightarrow>
                   map fst (files w) = output_files w \<and> length (files w) = 3)))"
  proof (intro impI)
    assume env: "(\<forall>axis i. cv2_normalize (plane_at a axis i) = Inr (nf (plane_at a axis i)))
        \<and> (\<forall>path v. cv2_imwrite path v = Inr (ok path v))"
    then have e1: "\<forall>axis i. cv2_normalize (plane_at a axis i) = Inr (nf (plane_at a axis i))"
      and e2: "\<forall>path v. cv2_imwrite path v = Inr (ok path v)" by simp_all
    note ex = extract_3d_returns [OF assms(1) len e1 e2, of n p dir]
    have example: "shape a = [10, 10, 10] \<and> n = 1 \<longrightarrow>
          (\<exists>w. extract_2d_slices cv2_normalize cv2_imwrite a p None n (Some dir) = Inr w
             \<and> output_files w =
                 map (\<lambda>s. join dir (fst (splitext (basename p)) @ ''_'' @ s @ ''.png''))
                   [''axial_5'', ''coronal_5'', ''sagittal_5'']
             \<and> distinct (output_files w)
             \<and> ((\<forall>path v. ok path v) \<longrightarrow>
                   map fst (files w) = output_files w \<and> length (files w) = 3))"
    proof (intro impI)
      assume h: "shape a = [10, 10, 10] \<and> n = 1"
      have d: "distinct (map (\<lambda>s. join dir (fst (splitext (basename p)) @ ''_'' @ s @ ''.png''))
                 [''axial_5'', ''coronal_5'', ''sagittal_5''])"
        by (auto dest: join_same_prefix_inj)
      from h sl5 have sl: "collect_slices a None n =
          Inr [(''axial_5'', plane_at a 0 5), (''coronal_5'', plane_at a 1 5),
               (''sagittal_5'', plane_at a 2 5)]"
        by blast
      from ex sl d h
      show "\<exists>w. extract_2d_slices cv2_normalize cv2_imwrite a p None n (Some dir) = Inr w
             \<and> output_files w =
                 map (\<lambda>s. join dir (fst (splitext (basename p)) @ ''_'' @ s @ ''.png''))
                   [''axial_5'', ''coronal_5'', ''sagittal_5'']
             \<and> distinct (output_files w)
             \<and> ((\<forall>path v. ok path v) \<longrightarrow>
                   map fst (files w) = output_files w \<and> length (files w) = 3)"
        by auto
    qed
    from ex example
    show "(\<exists>sl. collect_slices a None n = Inr sl
        \<and> extract_2d_slices cv2_normalize cv2_imwrite a p None n (Some dir) =
            Inr \<lparr>files = filter (\<lambda>(path, v). ok path v)
                    (map (\<lambda>(name, d).
                       (join dir (fst (splitext (basename p)) @ ''_'' @ name @ ''.png''), nf d)) sl),
                 output_files =
                    map (\<lambda>(name, d).
                       join dir (fst (splitext (basename p)) @ ''_'' @ name @ ''.png'')) sl\<rparr>)
      \<and> (shape a = [10, 10, 10] \<and> n = 1 \<longrightarrow>
          (\<exists>w. extract_2d_slices cv2_normalize cv2_imwrite a p None n (Some dir) = Inr w
             \<and> output_files w =
                 map (\<lambda>s. join dir (fst (splitext (basename p)) @ ''_'' @ s @ ''.png''))
                   [''axial_5'', ''coronal_5'', ''sagittal_5'']
             \<and> distinct (output_files w)
             \<and> ((\<forall>path v. ok path v) \<longrightarrow>
                   map fst (files w) = output_files w \<and> length (files w) = 3)))"
      by blast
  qed
  from c cs same sl5 run show ?thesis by blast
qed

theorem default_center_midpoint_witness:
  "length (shape \<lparr>shape = [7, 5, 3], item = (\<lambda>idx. 0::int)\<rparr>) = 3
   \<and> center_location \<lparr>shape = [7, 5, 3], item = (\<lambda>idx. 0::int)\<rparr> None = [3, 2, 1]
   \<and> (\<exists>w. extract_2d_slices (\<lambda>d. Inr d) (\<lambda>path v. Inr True)
            \<lparr>shape = [7, 5, 3], item = (\<lambda>idx. 0::int)\<rparr> ''/data/scan.nii'' None 1 (Some ''/out'') = Inr w
         \<and> output_files w =
             [''/out/scan_axial_3.png'', ''/out/scan_coronal_2.png'', ''/out/scan_sagittal_1.png'']
         \<and> map fst (files w) = output_files w)
   \<and> (\<exists>w. extract_2d_slices (\<lambda>d. Inr d) (\<lambda>path v. Inr True)
            \<lparr>shape = [10, 10, 10], item = (\<lambda>idx. 0::int)\<rparr> ''/data/scan.nii'' None 1 (Some ''/out'') = Inr w
         \<and> output_files w =
             [''/out/scan_axial_5.png'', ''/out/scan_coronal_5.png'', ''/out/scan_sagittal_5.png'']
         \<and> length (files w) = 3)"
proof -
  let ?a = "\<lparr>shape = [7, 5, 3], item = (\<lambda>idx. 0::int)\<rparr>"
  let ?b = "\<lparr>shape = [10, 10, 10], item = (\<lambda>idx. 0::int)\<rparr>"
  let ?nrm = "\<lambda>d :: int ndarray. (Inr d :: py_error + int ndarray)"
  let ?wr = "\<lambda>(path :: string) (v :: int ndarray). (Inr True :: py_error + bool)"
  have base: "fst (splitext (basename ''/data/scan.nii'')) = ''scan''"
    by (simp add: basename_def rfind_def splitext_def splitext_scan.simps)
  have h1: "length (shape ?a) = 3" and h1': "length (shape ?b) = 3" by simp_all
  have h2: "\<forall>axis i. ?nrm (plane_at ?a axis i) = Inr (plane_at ?a axis i)"
    and h2': "\<forall>axis i. ?nrm (plane_at ?b axis i) = Inr (plane_at ?b axis i)" by simp_all
  have h3: "\<forall>path v. ?wr path v = Inr True" by simp
  note t0 = default_center_midpoint [OF h1, where n = 1 and p = "''/data/scan.nii''"
      and dir = "''/out''" and cv2_normalize = ?nrm and nf = "\<lambda>d. d" and cv2_imwrite = ?wr
      and ok = "\<lambda>path v. True"]
  note t0' = default_center_midpoint [OF h1', where n = 1 and p = "''/data/scan.nii''"
      and dir = "''/out''" and cv2_normalize = ?nrm and nf = "\<lambda>d. d" and cv2_imwrite = ?wr
      and ok = "\<lambda>path v. True"]
  have t: "center_location ?a None = map (\<lambda>e. e div 2) (shape ?a)
   \<and> collect_slices ?a None 1 =
       Inr (map (\<lambda>i. (slice_name ''axial'' i, plane_at ?a 0 i)) (window (shape ?a ! 0 div 2) 1 (shape ?a ! 0)) @
            map (\<lambda>i. (slice_name ''coronal'' i, plane_at ?a 1 i)) (window (shape ?a ! 1 div 2) 1 (shape ?a ! 1)) @
            map (\<lambda>i. (slice_name ''sagittal'' i, plane_at ?a 2 i)) (window (shape ?a ! 2 div 2) 1 (shape ?a ! 2)))
   \<and> (\<exists>sl. collect_slices ?a None 1 = Inr sl
        \<and> extract_2d_slices ?nrm ?wr ?a ''/data/scan.nii'' None 1 (Some ''/out'') =
            Inr \<lparr>files = filter (\<lambda>(path, v). True)
                    (map (\<lambda>(name, d).
                       (join ''/out'' (fst (splitext (basename ''/data/scan.nii'')) @ ''_'' @ name @ ''.png''), d)) sl),
                 output_files =
                    map (\<lambda>(name, d).
                       join ''/out'' (fst (splitext (basename ''/data/scan.nii'')) @ ''_'' @ name @ ''.png'')) sl\<rparr>)"
    using t0 h2 h3 by blast
  have t': "shape ?b = [10, 10, 10] \<and> (1::int) = 1 \<longrightarrow>
        (\<exists>w. extract_2d_slices ?nrm ?wr ?b ''/data/scan.nii'' None 1 (Some ''/out'') = Inr w
             \<and> output_files w =
                 map (\<lambda>s. join ''/out'' (fst (splitext (basename ''/data/scan.nii'')) @ ''_'' @ s @ ''.png''))
                   [''axial_5'', ''coronal_5'', ''sagittal_5'']
             \<and> distinct (output_files w)
             \<and> ((\<forall>(path :: string) (v :: int ndarray). True) \<longrightarrow>
                   map fst (files w) = output_files w \<and> length (files w) = 3))"
    using t0' h2' h3 by blast
  from t have c: "center_location ?a None = [3, 2, 1]" by simp
  from t have cs: "collect_slices ?a None 1 =
       Inr (map (\<lambda>i. (slice_name ''axial'' i, plane_at ?a 0 i)) (window (shape ?a ! 0 div 2) 1 (shape ?a ! 0)) @
            map (\<lambda>i. (slice_name ''coronal'' i, plane_at ?a 1 i)) (window (shape ?a ! 1 div 2) 1 (shape ?a ! 1)) @
            map (\<lambda>i. (slice_name ''sagittal'' i, plane_at ?a 2 i)) (window (shape ?a ! 2 div 2) 1 (shape ?a ! 2)))"
    by blast
  have cs': "collect_slices ?a None 1 =
       Inr [(''axial_3'', plane_at ?a 0 3), (''coronal_2'', plane_at ?a 1 2), (''sagittal_1'', plane_at ?a 2 1)]"
    unfolding cs by (simp add: window_def py_range_def slice_name_def str_int_digit)
  from t obtain sl where "collect_slices ?a None 1 = Inr sl"
    and "extract_2d_slices ?nrm ?wr ?a ''/data/scan.nii'' None 1 (Some ''/out'') =
            Inr \<lparr>files = filter (\<lambda>(path, v). True)
                    (map (\<lambda>(name, d).
                       (join ''/out'' (fst (splitext (basename ''/data/scan.nii'')) @ ''_'' @ name @ ''.png''), d)) sl),
                 output_files =
                    map (\<lambda>(name, d).
                       join ''/out'' (fst (splitext (basename ''/data/scan.nii'')) @ ''_'' @ name @ ''.png'')) sl\<rparr>"
    by blast
  with cs' have a: "\<exists>w. extract_2d_slices ?nrm ?wr ?a ''/data/scan.nii'' None 1 (Some ''/out'') = Inr w
         \<and> output_files w =
             [''/out/scan_axial_3.png'', ''/out/scan_coronal_2.png'', ''/out/scan_sagittal_1.png'']
         \<and> map fst (files w) = output_files w"
    by (simp add: base join_def)
  from t' have "shape ?b = [10, 10, 10] \<and> (1::int) = 1 \<longrightarrow>
          (\<exists>w. extract_2d_slices ?nrm ?wr ?b ''/data/scan.nii'' None 1 (Some ''/out'') = Inr w
             \<and> output_files w =
                 map (\<lambda>s. join ''/out'' (fst (splitext (basename ''/data/scan.nii'')) @ ''_'' @ s @ ''.png''))
                   [''axial_5'', ''coronal_5'', ''sagittal_5'']
             \<and> distinct (output_files w)
             \<and> ((\<forall>(path :: string) (v :: int ndarray). True) \<longrightarrow>
                   map fst (files w) = output_files w \<and> length (files w) = 3))"
    by blast
  then have "\<exists>w. extract_2d_slices ?nrm ?wr ?b ''/data/scan.nii'' None 1 (Some ''/out'') = Inr w
         \<and> output_files w =
             [''/out/scan_axial_5.png'', ''/out/scan_coronal_5.png'', ''/out/scan_sagittal_5.png'']
         \<and> distinct (output_files w)
         \<and> map fst (files w) = output_files w \<and> length (files w) = 3"
    by (simp add: base join_def)
  then have b: "\<exists>w. extract_2d_slices ?nrm ?wr ?b ''/data/scan.nii'' None 1 (Some ''/out'') = Inr w
         \<and> output_files w =
             [''/out/scan_axial_5.png'', ''/out/scan_coronal_5.png'', ''/out/scan_sagittal_5.png'']
         \<and> length (files w) = 3"
    by blast
  from h1 c a b show ?thesis by blast
qed

subsection \<open>The number of slices\<close>

text \<open>
  Claim C2 bounds the slices of a view by the slice count \<open>n\<close>, which the command line
  documents as the number of images to extract. The range
  \<^verbatim>\<open>range(center - n//2, center + n//2 + 1)\<close> holds up to \<open>2 * (n div 2) + 1\<close> indices: at
  most \<open>n\<close> for an odd \<open>n \<ge> 1\<close>, but \<open>n + 1\<close> in an unclipped window when \<open>n\<close> is even. For
  a \<open>(10, 10, 10)\<close> array, the center \<open>(5, 5, 5)\<close> and \<open>n = 2\<close> each view yields the three
  slices 4, 5, 6: nine slices are collected and, whenever \<^verbatim>\<open>cv2.normalize\<close> and
  \<^verbatim>\<open>cv2.imwrite\<close> do not raise, nine paths are returned where the claim allows six.
\<close>

theorem even_count_exceeds_bound:
  "(\<exists>sl. collect_slices \<lparr>shape = [10, 10, 10], item = it\<rparr> (Some [5, 5, 5]) 2 = Inr sl
        \<and> map fst sl =
            [''axial_4'', ''axial_5'', ''axial_6'', ''coronal_4'', ''coronal_5'', ''coronal_6'',
             ''sagittal_4'', ''sagittal_5'', ''sagittal_6'']
        \<and> length sl = 9)
   \<and> ((\<forall>axis i. cv2_normalize (plane_at \<lparr>shape = [10, 10, 10], item = it\<rparr> axis i)
                    = Inr (nf (plane_at \<lparr>shape = [10, 10, 10], item = it\<rparr> axis i)))
        \<and> (\<forall>path v. cv2_imwrite path v = Inr (ok path v)) \<longrightarrow>
       (\<exists>w. extract_2d_slices cv2_normalize cv2_imwrite \<lparr>shape = [10, 10, 10], item = it\<rparr> p
               (Some [5, 5, 5]) 2 (Some dir) = Inr w
           \<and> output_files w =
               map (\<lambda>s. join dir (fst (splitext (basename p)) @ ''_'' @ s @ ''.png''))
                 [''axial_4'', ''axial_5'', ''axial_6'', ''coronal_4'', ''coronal_5'', ''coronal_6'',
                  ''sagittal_4'', ''sagittal_5'', ''sagittal_6'']
           \<and> length (output_files w) = 9
           \<and> ((\<forall>path v. ok path v) \<longrightarrow> map fst (files w) = output_files w)))"
proof -
  let ?a = "\<lparr>shape = [10, 10, 10], item = it\<rparr>"
  have h1: "length (shape ?a) = 3" by simp
  have h2: "length (center_location ?a (Some [5, 5, 5])) = 3" by (simp add: center_location_def)
  have w: "window 5 2 10 = [4, 5, 6]" by (simp add: window_def py_range_def upto_rec1)
  have sl: "collect_slices ?a (Some [5, 5, 5]) 2 =
      Inr [(''axial_4'', plane_at ?a 0 4), (''axial_5'', plane_at ?a 0 5), (''axial_6'', plane_at ?a 0 6),
           (''coronal_4'', plane_at ?a 1 4), (''coronal_5'', plane_at ?a 1 5), (''coronal_6'', plane_at ?a 1 6),
           (''sagittal_4'', plane_at ?a 2 4), (''sagittal_5'', plane_at ?a 2 5), (''sagittal_6'', plane_at ?a 2 6)]"
    by (simp add: collect_slices_3d [OF h1 h2] center_location_def w slice_name_def str_int_digit)
  have 1: "\<exists>sl. collect_slices ?a (Some [5, 5, 5]) 2 = Inr sl
        \<and> map fst sl =
            [''axial_4'', ''axial_5'', ''axial_6'', ''coronal_4'', ''coronal_5'', ''coronal_6'',
             ''sagittal_4'', ''sagittal_5'', ''sagittal_6'']
        \<and> length sl = 9"
    by (simp add: sl)
  have 2: "(\<forall>axis i. cv2_normalize (plane_at ?a axis i) = Inr (nf (plane_at ?a axis i)))
        \<and> (\<forall>path v. cv2_imwrite path v = Inr (ok path v)) \<longrightarrow>
       (\<exists>w. extract_2d_slices cv2_normalize cv2_imwrite ?a p (Some [5, 5, 5]) 2 (Some dir) = Inr w
           \<and> output_files w =
               map (\<lambda>s. join dir (fst (splitext (basename p)) @ ''_'' @ s @ ''.png''))
                 [''axial_4'', ''axial_5'', ''axial_6'', ''coronal_4'', ''coronal_5'', ''coronal_6'',
                  ''sagittal_4'', ''sagittal_5'', ''sagittal_6'']
           \<and> length (output_files w) = 9
           \<and> ((\<forall>path v. ok path v) \<longrightarrow> map fst (files w) = output_files w))"
  proof
    assume h: "(\<forall>axis i. cv2_normalize (plane_at ?a axis i) = Inr (nf (plane_at ?a axis i)))
        \<and> (\<forall>path v. cv2_imwrite path v = Inr (ok path v))"
    then have n: "\<forall>axis i. cv2_normalize (plane_at ?a axis i) = Inr (nf (plane_at ?a axis i))"
      and wr: "\<forall>path v. cv2_imwrite path v = Inr (ok path v)" by simp_all
    from extract_3d_returns [OF h1 h2 n wr, of 2 p dir] sl
    show "\<exists>w. extract_2d_slices cv2_normalize cv2_imwrite ?a p (Some [5, 5, 5]) 2 (Some dir) = Inr w
           \<and> output_files w =
               map (\<lambda>s. join dir (fst (splitext (basename p)) @ ''_'' @ s @ ''.png''))
                 [''axial_4'', ''axial_5'', ''axial_6'', ''coronal_4'', ''coronal_5'', ''coronal_6'',
                  ''sagittal_4'', ''sagittal_5'', ''sagittal_6'']
           \<and> length (output_files w) = 9
           \<and> ((\<forall>path v. ok path v) \<longrightarrow> map fst (files w) = output_files w)"
      by auto
  qed
  from 1 2 show ?thesis by blast
qed

theorem even_count_exceeds_bound_witness:
  "\<exists>w. extract_2d_slices (\<lambda>d. Inr d) (\<lambda>path v. Inr True)
          \<lparr>shape = [10, 10, 10], item = (\<lambda>idx. 0::int)\<rparr> ''/data/scan.nii''
          (Some [5, 5, 5]) 2 (Some ''/out'') = Inr w
      \<and> output_files w =
          [''/out/scan_axial_4.png'', ''/out/scan_axial_5.png'', ''/out/scan_axial_6.png'',
           ''/out/scan_coronal_4.png'', ''/out/scan_coronal_5.png'', ''/out/scan_coronal_6.png'',
           ''/out/scan_sagittal_4.png'', ''/out/scan_sagittal_5.png'', ''/out/scan_sagittal_6.png'']
      \<and> length (output_files w) = 9
      \<and> map fst (files w) = output_files w"
proof -
  let ?a = "\<lparr>shape = [10, 10, 10], item = (\<lambda>idx. 0::int)\<rparr>"
  let ?nrm = "\<lambda>d :: int ndarray. (Inr d :: py_error + int ndarray)"
  let ?wr = "\<lambda>(path :: string) (v :: int ndarray). (Inr True :: py_error + bool)"
  have base: "fst (splitext (basename ''/data/scan.nii'')) = ''scan''"
    by (simp add: basename_def rfind_def splitext_def splitext_scan.simps)
  note t = even_count_exceeds_bound [where it = "\<lambda>idx. 0::int" and cv2_normalize = ?nrm
      and nf = "\<lambda>d. d" and cv2_imwrite = ?wr and ok = "\<lambda>path v. True"
      and p = "''/data/scan.nii''" and dir = "''/out''"]
  from t have "\<exists>w. extract_2d_slices ?nrm ?wr ?a ''/data/scan.nii'' (Some [5, 5, 5]) 2 (Some ''/out'') = Inr w
           \<and> output_files w =
               map (\<lambda>s. join ''/out'' (fst (splitext (basename ''/data/scan.nii'')) @ ''_'' @ s @ ''.png''))
                 [''axial_4'', ''axial_5'', ''axial_6'', ''coronal_4'', ''coronal_5'', ''coronal_6'',
                  ''sagittal_4'', ''sagittal_5'', ''sagittal_6'']
           \<and> length (output_files w) = 9
           \<and> ((\<forall>(path :: string) (v :: int ndarray). True) \<longrightarrow> map fst (files w) = output_files w)"
    by simp
  then show ?thesis by (simp add: base join_def)
qed

section \<open>Properties of the resize operation\<close>

subsection \<open>Splitting a path\<close>

lemma rfind_last_occurrence: "c \<notin> set ys \<Longrightarrow> rfind (xs @ c # ys) c = int (length xs)"
proof -
  assume "c \<notin> set ys"
  then have "takeWhile (\<lambda>x. x \<noteq> c) (rev ys @ c # rev xs) = rev ys"
    by (subst takeWhile_append2) auto
  then show ?thesis by (simp add: rfind_def)
qed

lemma rfind_absent: "c \<notin> set p \<Longrightarrow> rfind p c = - 1"
  by (simp add: rfind_def)

lemma rfind_append_absent: "c \<notin> set ys \<Longrightarrow> rfind (xs @ ys) c = rfind xs c"
proof (cases "c \<in> set xs")
  case True
  assume "c \<notin> set ys"
  from True obtain us vs where xs: "xs = us @ c # vs" and "c \<notin> set vs"
    by (auto dest: split_list_last)
  with \<open>c \<notin> set ys\<close> have "rfind (us @ c # (vs @ ys)) c = int (length us)"
    by (intro rfind_last_occurrence) simp
  moreover from \<open>c \<notin> set vs\<close> have "rfind (us @ c # vs) c = int (length us)"
    by (rule rfind_last_occurrence)
  ultimately show ?thesis by (simp add: xs)
next
  case False
  assume "c \<notin> set ys"
  with False show ?thesis by (simp add: rfind_absent)
qed

lemma rfind_bounds: "- 1 \<le> rfind p c \<and> rfind p c < int (length p)"
proof (cases "c \<in> set p")
  case True
  then obtain us vs where "p = us @ c # vs" and "c \<notin> set vs"
    by (auto dest: split_list_last)
  then show ?thesis by (simp add: rfind_last_occurrence)
next
  case False
  then show ?thesis by (simp add: rfind_absent)
qed

lemma rfind_below: "c \<notin> set (drop k p) \<Longrightarrow> rfind p c < int k"
proof (cases "c \<in> set p")
  case True
  assume a: "c \<notin> set (drop k p)"
  from True obtain us vs where p: "p = us @ c # vs" and "c \<notin> set vs"
    by (auto dest: split_list_last)
  then have r: "rfind p c = int (length us)" by (simp add: rfind_last_occurrence)
  have "length us < k"
  proof (rule ccontr)
    assume "\<not> length us < k"
    then have "drop k p = drop k us @ c # vs" by (simp add: p)
    with a show False by simp
  qed
  with r show ?thesis by simp
next
  case False
  then show ?thesis by (simp add: rfind_absent)
qed

lemma splitext_scan_found:
  "i \<le> j \<Longrightarrow> j < d \<Longrightarrow> d \<le> length p \<Longrightarrow> p ! j \<noteq> CHR ''.'' \<Longrightarrow>
     splitext_scan p i d = (take d p, drop d p)"
proof (induction p i d rule: splitext_scan.induct)
  case (1 p filenameIndex dotIndex)
  from "1.prems" have lt: "filenameIndex < dotIndex" and len: "filenameIndex < length p" by simp_all
  from len have hd: "take 1 (drop filenameIndex p) = [p ! filenameIndex]"
    using Cons_nth_drop_Suc [OF len, symmetric] by simp
  show ?case
  proof (cases "p ! filenameIndex = CHR ''.''")
    case True
    with "1.prems" have "filenameIndex \<noteq> j" by auto
    with "1.prems" have "Suc filenameIndex \<le> j" by simp
    with "1.IH" [OF lt] True hd "1.prems" have "splitext_scan p (Suc filenameIndex) dotIndex = (take dotIndex p, drop dotIndex p)"
      by simp
    with lt True hd show ?thesis by (subst splitext_scan.simps) simp
  next
    case False
    with lt hd show ?thesis by (subst splitext_scan.simps) simp
  qed
qed

lemma basename_append_absent:
  "CHR ''/'' \<notin> set ys \<Longrightarrow> basename (xs @ ys) = basename xs @ ys"
proof -
  assume a: "CHR ''/'' \<notin> set ys"
  have "nat (rfind xs CHR ''/'' + 1) \<le> length xs" using rfind_bounds [of xs "CHR ''/''"] by linarith
  with a show ?thesis by (simp add: basename_def rfind_append_absent)
qed

lemma splitext_last_dot:
  assumes "CHR ''.'' \<notin> set ext" and "CHR ''/'' \<notin> set ext"
    and "\<exists>c\<in>set (basename stem). c \<noteq> CHR ''.''"
  shows "splitext (stem @ ''.'' @ ext) = (stem, ''.'' @ ext)"
proof -
  let ?p = "stem @ ''.'' @ ext"
  let ?k = "nat (rfind stem CHR ''/'' + 1)"
  have dot: "rfind ?p CHR ''.'' = int (length stem)"
    using assms(1) rfind_last_occurrence [of "CHR ''.''" ext stem] by simp
  have sep: "rfind ?p CHR ''/'' = rfind stem CHR ''/''"
    using assms(2) by (intro rfind_append_absent) simp
  have lt: "rfind stem CHR ''/'' < int (length stem)" using rfind_bounds by blast
  from assms(3) obtain c where "c \<in> set (drop ?k stem)" and c: "c \<noteq> CHR ''.''"
    by (auto simp: basename_def)
  then obtain m where m: "m < length stem - ?k" and "drop ?k stem ! m = c"
    by (auto simp: in_set_conv_nth)
  then have nth: "stem ! (?k + m) = c" by simp
  have "splitext_scan ?p ?k (length stem) = (take (length stem) ?p, drop (length stem) ?p)"
  proof (rule splitext_scan_found [where j = "?k + m"])
    show "?k \<le> ?k + m" by simp
    from m show "?k + m < length stem" by simp
    show "length stem \<le> length ?p" by simp
    from m nth c show "?p ! (?k + m) \<noteq> CHR ''.''" by (simp add: nth_append)
  qed
  with dot sep lt show ?thesis by (simp add: splitext_def)
qed

lemma splitext_no_dot:
  assumes "CHR ''.'' \<notin> set (basename p)"
  shows "splitext p = (p, [])"
proof -
  from assms have "rfind p CHR ''.'' < int (nat (rfind p CHR ''/'' + 1))"
    unfolding basename_def by (rule rfind_below)
  moreover have "- 1 \<le> rfind p CHR ''/''" using rfind_bounds by blast
  ultimately have "\<not> rfind p CHR ''.'' > rfind p CHR ''/''" by simp
  then show ?thesis by (simp add: splitext_def)
qed

lemma splitext_foo_nii_gz: "splitext ''foo.nii.gz'' = (''foo.nii'', ''.gz'')"
proof -
  have "splitext (''foo.nii'' @ ''.'' @ ''gz'') = (''foo.nii'', ''.'' @ ''gz'')"
    by (rule splitext_last_dot) (simp_all add: basename_def rfind_def)
  then show ?thesis by simp
qed

subsection \<open>Rounding to binary64\<close>

lemma bitlen_powi_bounds:
  assumes "0 < p"
  shows "(2::rat) powi (bitlen p - 1) \<le> of_int p" and "of_int p < (2::rat) powi (bitlen p)"
proof -
  from assms have b1: "1 \<le> bitlen p" by (auto simp: bitlen_alt_def)
  from bitlen_bounds [OF assms] have lo: "2 ^ nat (bitlen p - 1) \<le> p" and hi: "p < 2 ^ nat (bitlen p)"
    by simp_all
  from lo have "(of_int (2 ^ nat (bitlen p - 1)) :: rat) \<le> of_int p" by (simp only: of_int_le_iff)
  with b1 show "(2::rat) powi (bitlen p - 1) \<le> of_int p" by (simp add: power_int_nonneg_exp)
  from hi have "(of_int p :: rat) < of_int (2 ^ nat (bitlen p))" by (simp only: of_int_less_iff)
  with b1 show "of_int p < (2::rat) powi (bitlen p)" by (simp add: power_int_nonneg_exp)
qed

lemma ilog2_bounds:
  assumes "0 < x"
  shows "2 powi (ilog2 x) \<le> x \<and> x < 2 powi (ilog2 x + 1)"
proof -
  obtain p q where pq: "quotient_of x = (p, q)" by (cases "quotient_of x")
  then have q: "0 < q" by (rule quotient_of_denom_pos)
  from pq have x: "x = of_int p / of_int q" by (rule quotient_of_div)
  with assms q have p: "0 < p" by (simp add: zero_less_divide_iff)
  let ?d = "bitlen p - bitlen q"
  have "x < 2 powi bitlen p / 2 powi (bitlen q - 1)"
    unfolding x using bitlen_powi_bounds [OF p] bitlen_powi_bounds [OF q] p q
    by (intro frac_less) simp_all
  then have hi: "x < 2 powi (?d + 1)"
    by (simp add: power_int_diff [symmetric] algebra_simps)
  have "2 powi (bitlen p - 1) / 2 powi bitlen q < x"
    unfolding x using bitlen_powi_bounds [OF p] bitlen_powi_bounds [OF q] p q
    by (intro frac_less2) simp_all
  then have lo: "2 powi (?d - 1) < x"
    by (simp add: power_int_diff [symmetric] algebra_simps)
  show ?thesis
  proof (cases "2 powi ?d \<le> x")
    case True
    with hi pq show ?thesis by (simp add: ilog2_def)
  next
    case False
    with lo pq show ?thesis by (simp add: ilog2_def)
  qed
qed

lemma powi2_less_imp_less: "(2::rat) powi m < 2 powi n \<Longrightarrow> m < n"
proof (rule ccontr)
  assume lt: "(2::rat) powi m < 2 powi n" and "\<not> m < n"
  then have "n \<le> m" by simp
  then have "(2::rat) powi n \<le> 2 powi m" by (intro power_int_increasing) simp_all
  with lt show False by simp
qed

lemma ilog2_unique:
  assumes "2 powi e \<le> x" and "x < 2 powi (e + 1)"
  shows "ilog2 x = e"
proof -
  have pos: "(0::rat) < 2 powi e" by simp
  with assms(1) have x: "0 < x" by linarith
  from ilog2_bounds [OF x] have lo: "2 powi (ilog2 x) \<le> x" and hi: "x < 2 powi (ilog2 x + 1)"
    by simp_all
  from assms(1) hi have "(2::rat) powi e < 2 powi (ilog2 x + 1)" by linarith
  then have 1: "e < ilog2 x + 1" by (rule powi2_less_imp_less)
  from lo assms(2) have "(2::rat) powi (ilog2 x) < 2 powi (e + 1)" by linarith
  then have 2: "ilog2 x < e + 1" by (rule powi2_less_imp_less)
  from 1 2 show ?thesis by simp
qed

lemma round_half_even_error: "\<bar>of_int (round_half_even y) - y\<bar> \<le> 1 / 2"
proof -
  have "of_int \<lfloor>y\<rfloor> \<le> y" and "y < of_int \<lfloor>y\<rfloor> + 1" by linarith+
  then show ?thesis by (auto simp: round_half_even_def Let_def)
qed

lemma round_half_even_of_int [simp]: "round_half_even (of_int k) = k"
  by (simp add: round_half_even_def)


lemma binary64_round_normal:
  assumes "2 powi e \<le> \<bar>x\<bar>" and "\<bar>x\<bar> < 2 powi (e + 1)" and "- 1022 \<le> e"
  shows "binary64_round x = of_int (round_half_even (x / 2 powi (e - 52))) * 2 powi (e - 52)"
proof -
  have "(0::rat) < 2 powi e" by simp
  with assms(1) have "0 < \<bar>x\<bar>" by linarith
  then have "x \<noteq> 0" by simp
  moreover from assms(1,2) have "ilog2 \<bar>x\<bar> = e" by (rule ilog2_unique)
  ultimately show ?thesis using assms(3) by (simp add: binary64_round_def Let_def max_def)
qed

lemma binary64_round_error:
  assumes "2 powi (- 1022) \<le> \<bar>x\<bar>"
  shows "\<bar>binary64_round x - x\<bar> \<le> 2 powi (- 53) * \<bar>x\<bar>"
proof -
  let ?e = "ilog2 \<bar>x\<bar>"
  let ?u = "(2::rat) powi (?e - 52)"
  have "(0::rat) < 2 powi (- 1022)" by (rule zero_less_power_int) simp
  with assms have pos: "0 < \<bar>x\<bar>" by linarith
  from ilog2_bounds [OF pos] have lo: "2 powi ?e \<le> \<bar>x\<bar>" and hi: "\<bar>x\<bar> < 2 powi (?e + 1)"
    by simp_all
  from assms hi have "(2::rat) powi (- 1022) < 2 powi (?e + 1)" by linarith
  then have e: "- 1022 \<le> ?e" using powi2_less_imp_less [of "- 1022" "?e + 1"] by simp
  have u: "0 < ?u" by simp
  have r: "binary64_round x = of_int (round_half_even (x / ?u)) * ?u"
    using lo hi e by (rule binary64_round_normal)
  have "binary64_round x - x = (of_int (round_half_even (x / ?u)) - x / ?u) * ?u"
    using u by (simp add: r field_simps)
  then have "\<bar>binary64_round x - x\<bar> = \<bar>of_int (round_half_even (x / ?u)) - x / ?u\<bar> * ?u"
    using u by (simp add: abs_mult)
  also have "\<dots> \<le> 1 / 2 * ?u"
    using u round_half_even_error [of "x / ?u"] by (intro mult_right_mono) simp_all
  also have "1 / 2 * ?u = 2 powi (- 53) * 2 powi ?e"
    by (simp add: power_int_diff power_int_minus_divide)
  also have "\<dots> \<le> 2 powi (- 53) * \<bar>x\<bar>"
    using lo by (intro mult_left_mono) simp_all
  finally show ?thesis .
qed

lemma float_mul_Finite:
  "\<bar>binary64_round (x * y)\<bar> < 2 ^ 1024 \<Longrightarrow>
     float_mul (Finite x) (Finite y) = Finite (binary64_round (x * y))"
  by (auto simp: Let_def)

lemma int_true_div_Inr:
  "int_true_div a b = Inr q \<Longrightarrow>
     b \<noteq> 0 \<and> q = Finite (binary64_round (of_int a / of_int b))"
  by (auto simp: int_true_div_def Let_def split: if_splits)

lemma binary64_round_subnormal:
  assumes "x \<noteq> 0" and "\<bar>x\<bar> < 2 powi (- 1022)"
  shows "binary64_round x = of_int (round_half_even (x / 2 powi (- 1074))) * 2 powi (- 1074)"
proof -
  from assms(1) have pos: "0 < \<bar>x\<bar>" by simp
  from ilog2_bounds [OF pos] have "2 powi (ilog2 \<bar>x\<bar>) \<le> \<bar>x\<bar>" by simp
  with assms(2) have "(2::rat) powi (ilog2 \<bar>x\<bar>) < 2 powi (- 1022)" by linarith
  then have "ilog2 \<bar>x\<bar> < - 1022" by (rule powi2_less_imp_less)
  then have "max (ilog2 \<bar>x\<bar>) (- 1022) = - 1022" by simp
  with assms(1) show ?thesis by (simp add: binary64_round_def Let_def)
qed

lemma round_to_multiple_error:
  fixes u x :: rat
  assumes "0 < u"
  shows "\<bar>of_int (round_half_even (x / u)) * u - x\<bar> \<le> 1 / 2 * u"
proof -
  have "of_int (round_half_even (x / u)) * u - x = (of_int (round_half_even (x / u)) - x / u) * u"
    using assms by (simp add: field_simps)
  then have "\<bar>of_int (round_half_even (x / u)) * u - x\<bar>
      = \<bar>of_int (round_half_even (x / u)) - x / u\<bar> * u"
    using assms by (simp add: abs_mult)
  also have "\<dots> \<le> 1 / 2 * u"
    using assms round_half_even_error [of "x / u"] by (intro mult_right_mono) simp_all
  finally show ?thesis .
qed

lemma binary64_round_error_subnormal:
  assumes "\<bar>x\<bar> < 2 powi (- 1022)"
  shows "\<bar>binary64_round x - x\<bar> \<le> 2 powi (- 1075)"
proof (cases "x = 0")
  case True
  then show ?thesis by (simp add: binary64_round_def)
next
  case False
  define u :: rat where "u = 2 powi (- 1074)"
  have u: "0 < u" unfolding u_def by (rule zero_less_power_int) simp
  have r: "binary64_round x = of_int (round_half_even (x / u)) * u"
    unfolding u_def using False assms by (rule binary64_round_subnormal)
  have half: "1 / 2 * u = 2 powi (- 1075)"
    unfolding u_def using power_int_add [of "2::rat" "- 1" "- 1074"]
    by (simp del: power_int_numeral_neg_numeral add: power_int_minus_divide)
  from round_to_multiple_error [OF u, of x] show ?thesis unfolding r half .
qed

lemma binary64_round_error_any:
  "\<bar>binary64_round x - x\<bar> \<le> max (2 powi (- 53) * \<bar>x\<bar>) (2 powi (- 53) * 2 powi (- 1022))"
proof (cases "2 powi (- 1022) \<le> \<bar>x\<bar>")
  case True
  from binary64_round_error [OF True] show ?thesis by (simp add: le_max_iff_disj)
next
  case False
  then have "\<bar>x\<bar> < 2 powi (- 1022)" by simp
  from binary64_round_error_subnormal [OF this]
  have "\<bar>binary64_round x - x\<bar> \<le> 2 powi (- 53) * 2 powi (- 1022)"
    using power_int_add [of "2::rat" "- 53" "- 1022"] by simp
  then show ?thesis by (simp only: le_max_iff_disj) simp
qed

lemma two_roundings:
  fixes v y z t m :: rat
  assumes "\<bar>y - z\<bar> \<le> 1 / 9007199254740992 * t" and "t = \<bar>z\<bar>" and "m \<le> t"
    and "\<bar>v - y\<bar> \<le> max (1 / 9007199254740992 * \<bar>y\<bar>) (1 / 9007199254740992 * m)"
  shows "\<bar>v - z\<bar> \<le> 4 * (1 / 9007199254740992) * t"
proof -
  from assms(1,2) have y_hi: "\<bar>y\<bar> \<le> t + 1 / 9007199254740992 * t" by linarith
  from assms(4) consider "\<bar>v - y\<bar> \<le> 1 / 9007199254740992 * \<bar>y\<bar>"
    | "\<bar>v - y\<bar> \<le> 1 / 9007199254740992 * m"
    by (auto simp only: le_max_iff_disj)
  then show ?thesis
  proof cases
    case 1
    with assms(1,2) y_hi show ?thesis by linarith
  next
    case 2
    with assms(1,2,3) show ?thesis by linarith
  qed
qed

lemma rounded_below_twice:
  fixes v z t P :: rat
  assumes "\<bar>v - z\<bar> \<le> 4 * (1 / 9007199254740992) * t" and "t = \<bar>z\<bar>" and "t \<le> P" and "0 < P"
  shows "\<bar>v\<bar> < 2 * P"
  using assms by linarith

lemma spacing_product_close:
  fixes s a b :: rat
  assumes h1: "2 powi (- 1022) \<le> \<bar>a / b\<bar>"
    and h2: "2 powi (- 1022) \<le> \<bar>s * (a / b)\<bar>"
  shows "\<bar>binary64_round (s * binary64_round (a / b)) - s * (a / b)\<bar>
           \<le> 4 * (1 / 9007199254740992) * \<bar>s * (a / b)\<bar>"
proof -
  let ?r = "a / b"
  define q where "q = binary64_round ?r"
  define v where "v = binary64_round (s * q)"
  define t where "t = \<bar>s * ?r\<bar>"
  define m :: rat where "m = 2 powi (- 1022)"
  have uval: "(2::rat) powi (- 53) = 1 / 9007199254740992" by simp
  have e1: "\<bar>q - ?r\<bar> \<le> 2 powi (- 53) * \<bar>?r\<bar>"
    unfolding q_def using h1 by (rule binary64_round_error)
  have t: "t = \<bar>s\<bar> * \<bar>?r\<bar>" by (simp add: t_def abs_mult)
  have "\<bar>s\<bar> * \<bar>q - ?r\<bar> \<le> \<bar>s\<bar> * (2 powi (- 53) * \<bar>?r\<bar>)"
    using e1 by (intro mult_left_mono) simp_all
  also have "\<bar>s\<bar> * \<bar>q - ?r\<bar> = \<bar>s * q - s * ?r\<bar>"
    by (simp only: abs_mult [symmetric] right_diff_distrib)
  also have "\<bar>s\<bar> * (2 powi (- 53) * \<bar>?r\<bar>) = 1 / 9007199254740992 * t"
    by (simp only: uval t)
  finally have e1': "\<bar>s * q - s * ?r\<bar> \<le> 1 / 9007199254740992 * t" .
  have mt: "m \<le> t" using h2 unfolding m_def t_def .
  have e2: "\<bar>v - s * q\<bar> \<le> max (1 / 9007199254740992 * \<bar>s * q\<bar>) (1 / 9007199254740992 * m)"
    unfolding v_def m_def uval [symmetric] by (rule binary64_round_error_any)
  have tz: "t = \<bar>s * ?r\<bar>" by (rule t_def)
  have "\<bar>v - s * ?r\<bar> \<le> 4 * (1 / 9007199254740992) * t"
    using e1' tz mt e2 by (rule two_roundings)
  then show ?thesis unfolding v_def q_def t_def .
qed

lemma spacing_product_error:
  fixes s a b :: rat
  assumes b: "b \<noteq> 0"
    and h1: "2 powi (- 1022) \<le> \<bar>a / b\<bar>"
    and h2: "2 powi (- 1022) \<le> \<bar>s * (a / b)\<bar>"
  shows "\<bar>binary64_round (s * binary64_round (a / b)) * b - s * a\<bar> \<le> 2 powi (- 51) * \<bar>s * a\<bar>"
proof -
  let ?r = "a / b"
  let ?v = "binary64_round (s * binary64_round (a / b))"
  note main = spacing_product_close [OF h1 h2]
  have "?v * b - s * a = (?v - s * ?r) * b" using b by (simp add: field_simps)
  then have "\<bar>?v * b - s * a\<bar> = \<bar>?v - s * ?r\<bar> * \<bar>b\<bar>" by (simp add: abs_mult)
  also have "\<dots> \<le> (4 * (1 / 9007199254740992) * \<bar>s * ?r\<bar>) * \<bar>b\<bar>"
    using main by (intro mult_right_mono) simp_all
  also have "\<bar>s * ?r\<bar> * \<bar>b\<bar> = \<bar>s * a\<bar>" using b by (simp add: abs_mult)
  then have "(4 * (1 / 9007199254740992) * \<bar>s * ?r\<bar>) * \<bar>b\<bar> = 4 * (1 / 9007199254740992) * \<bar>s * a\<bar>"
    by (simp only: mult.assoc)
  also have "4 * (1 / 9007199254740992) = (2::rat) powi (- 51)" by simp
  finally show ?thesis .
qed

lemma spacing_product_finite:
  fixes s a b :: rat
  assumes h1: "2 powi (- 1022) \<le> \<bar>a / b\<bar>"
    and h2: "2 powi (- 1022) \<le> \<bar>s * (a / b)\<bar>"
    and h3: "\<bar>s * (a / b)\<bar> \<le> 2 powi 1023"
  shows "\<bar>binary64_round (s * binary64_round (a / b))\<bar> < 2 ^ 1024"
proof -
  define t where "t = \<bar>s * (a / b)\<bar>"
  define P :: rat where "P = 2 powi 1023"
  have main: "\<bar>binary64_round (s * binary64_round (a / b)) - s * (a / b)\<bar>
      \<le> 4 * (1 / 9007199254740992) * t"
    unfolding t_def by (rule spacing_product_close [OF h1 h2])
  have p1024: "(2::rat) ^ 1024 = 2 * 2 powi 1023"
    using power_int_add [of "2::rat" 1 1023] by simp
  have pp: "0 < P" unfolding P_def by (rule zero_less_power_int) simp
  have h3': "t \<le> P" using h3 unfolding t_def P_def .
  have tz: "t = \<bar>s * (a / b)\<bar>" by (rule t_def)
  have "\<bar>binary64_round (s * binary64_round (a / b))\<bar> < 2 * P"
    using main tz h3' pp by (rule rounded_below_twice)
  then show ?thesis unfolding p1024 P_def .
qed

lemma float_mul_Finite_iff:
  "float_mul (Finite x) (Finite y) = Finite v \<Longrightarrow> v = binary64_round (x * y)"
  by (auto simp: Let_def split: if_splits)

lemma round_half_even_near: "\<bar>y - of_int k\<bar> < 1 / 2 \<Longrightarrow> round_half_even y = k"
proof -
  assume a: "\<bar>y - of_int k\<bar> < 1 / 2"
  show ?thesis
  proof (cases "of_int k \<le> y")
    case True
    with a have "\<lfloor>y\<rfloor> = k" by (intro floor_unique) linarith+
    with a True show ?thesis by (simp add: round_half_even_def Let_def)
  next
    case False
    have k1: "(of_int (k - 1) :: rat) = of_int k - 1" by simp
    from a False have f: "\<lfloor>y\<rfloor> = k - 1" unfolding k1 [symmetric]
      by (intro floor_unique; unfold k1) linarith+
    from a False have "1 / 2 < y - of_int (k - 1)" unfolding k1 by linarith
    with f show ?thesis by (simp add: round_half_even_def Let_def)
  qed
qed

lemma binary64_round_exact:
  assumes "2 powi e \<le> \<bar>x\<bar>" and "\<bar>x\<bar> < 2 powi (e + 1)" and "- 1022 \<le> e"
    and "x / 2 powi (e - 52) = of_int k"
  shows "binary64_round x = x"
proof -
  have "binary64_round x = of_int (round_half_even (x / 2 powi (e - 52))) * 2 powi (e - 52)"
    using assms(1-3) by (rule binary64_round_normal)
  also have "\<dots> = x / 2 powi (e - 52) * 2 powi (e - 52)" by (simp add: assms(4))
  also have "\<dots> = x" by simp
  finally show ?thesis .
qed

lemma binary64_round_1: "binary64_round 1 = 1"
  by (rule binary64_round_exact [where e = 0 and k = "2 ^ 52"]) simp_all

lemma binary64_round_2: "binary64_round 2 = 2"
  by (rule binary64_round_exact [where e = 1 and k = "2 ^ 52"]) simp_all

lemma binary64_round_4: "binary64_round 4 = 4"
  by (rule binary64_round_exact [where e = 2 and k = "2 ^ 52"]) simp_all

lemma binary64_round_64: "binary64_round 64 = 64"
  by (rule binary64_round_exact [where e = 6 and k = "2 ^ 52"]) simp_all

lemma binary64_round_64_49: "binary64_round (64 / 49) = 5882252574524729 / 4503599627370496"
proof -
  have "binary64_round (64 / 49) = of_int (round_half_even (64 / 49 / 2 powi (0 - 52))) * 2 powi (0 - 52)"
    by (rule binary64_round_normal) simp_all
  also have "round_half_even (64 / 49 / 2 powi (0 - 52)) = 5882252574524729"
    by (rule round_half_even_near) simp
  finally show ?thesis by simp
qed

lemma binary64_round_product_49:
  "binary64_round (5882252574524729 / 4503599627370496 * 49) = 9007199254740991 / 140737488355328"
proof -
  have "binary64_round (5882252574524729 / 4503599627370496 * 49)
      = of_int (round_half_even (5882252574524729 / 4503599627370496 * 49 / 2 powi (5 - 52))) * 2 powi (5 - 52)"
    by (rule binary64_round_normal) simp_all
  also have "round_half_even (5882252574524729 / 4503599627370496 * 49 / 2 powi (5 - 52)) = 9007199254740991"
    by (rule round_half_even_near) simp
  finally show ?thesis by simp
qed

lemma below_overflow: "\<bar>r\<bar> \<le> 64 \<Longrightarrow> \<not> (2::rat) ^ 1024 \<le> \<bar>r\<bar>" and "\<bar>r\<bar> \<le> 64 \<Longrightarrow> \<bar>r\<bar> < (2::rat) ^ 1024"
proof -
  have "(2::rat) ^ 6 < 2 ^ 1024" by (rule power_strict_increasing) simp_all
  then have "(64::rat) < 2 ^ 1024" by simp
  then show "\<bar>r\<bar> \<le> 64 \<Longrightarrow> \<not> (2::rat) ^ 1024 \<le> \<bar>r\<bar>" and "\<bar>r\<bar> \<le> 64 \<Longrightarrow> \<bar>r\<bar> < (2::rat) ^ 1024"
    by linarith+
qed

lemma int_true_div_examples:
  "int_true_div 64 32 = Inr (Finite 2)" "int_true_div 32 16 = Inr (Finite 2)"
  "int_true_div 64 49 = Inr (Finite (5882252574524729 / 4503599627370496))"
  by (simp_all add: int_true_div_def binary64_round_2 binary64_round_64_49 below_overflow)

lemma float_mul_examples:
  "float_mul (Finite 1) (Finite 2) = Finite 2" "float_mul (Finite 2) (Finite 2) = Finite 4"
  "float_mul (Finite 1) (Finite (5882252574524729 / 4503599627370496))
     = Finite (5882252574524729 / 4503599627370496)"
  "float_mul (Finite (5882252574524729 / 4503599627370496)) (Finite 49)
     = Finite (9007199254740991 / 140737488355328)"
  "float_mul (Finite 1) (Finite 64) = Finite 64"
proof -
  show "float_mul (Finite 1) (Finite 2) = Finite 2"
    by (subst float_mul_Finite) (simp_all add: binary64_round_2 below_overflow)
  show "float_mul (Finite 2) (Finite 2) = Finite 4"
    by (subst float_mul_Finite) (simp_all add: binary64_round_4 below_overflow)
  have r: "binary64_round (5882252574524729 / 4503599627370496) = 5882252574524729 / 4503599627370496"
    by (rule binary64_round_exact [where e = 0 and k = 5882252574524729]) simp_all
  show "float_mul (Finite 1) (Finite (5882252574524729 / 4503599627370496))
     = Finite (5882252574524729 / 4503599627370496)"
    by (subst float_mul_Finite) (simp_all add: r below_overflow)
  show "float_mul (Finite (5882252574524729 / 4503599627370496)) (Finite 49)
     = Finite (9007199254740991 / 140737488355328)"
    by (subst float_mul_Finite) (simp_all only: binary64_round_product_49, simp_all add: below_overflow)
  show "float_mul (Finite 1) (Finite 64) = Finite 64"
    by (subst float_mul_Finite) (simp_all add: binary64_round_64 below_overflow)
qed

lemma new_spacing_example:
  "new_spacing [Finite 1, Finite 1, Finite 2] [64, 64, 32] [32, 32, 16] = Inr [Finite 2, Finite 2, Finite 4]"
  by (simp add: new_spacing_def axis_spacing_def getitem_def int_true_div_examples float_mul_examples
      del: float_mul.simps)

lemma new_spacing_example_49:
  "new_spacing [Finite 1, Finite 1, Finite 2] [64, 64, 32] [49, 49, 16]
     = Inr [Finite (5882252574524729 / 4503599627370496),
            Finite (5882252574524729 / 4503599627370496), Finite 4]"
  by (simp add: new_spacing_def axis_spacing_def getitem_def int_true_div_examples float_mul_examples
      del: float_mul.simps)


lemma binary64_round_third: "binary64_round (1 / 3) = 6004799503160661 / 18014398509481984"
proof -
  have "binary64_round (1 / 3) = of_int (round_half_even (1 / 3 / 2 powi (- 2 - 52))) * 2 powi (- 2 - 52)"
    by (rule binary64_round_normal) simp_all
  also have "round_half_even (1 / 3 / 2 powi (- 2 - 52)) = 6004799503160661"
    by (rule round_half_even_near) simp
  finally show ?thesis by simp
qed

lemma binary64_round_underflow:
  fixes u q :: rat
  assumes u: "u = 2 powi (- 1074)" and q: "0 < q" "q < 1 / 2"
  shows "binary64_round (u * q) = 0"
proof -
  have pos: "0 < u" unfolding u by (rule zero_less_power_int) simp
  have le: "u \<le> 2 powi (- 1022)" unfolding u by (rule power_int_increasing) simp_all
  from pos q have nz: "u * q \<noteq> 0" by simp
  from pos q have "u * q < u * 1" by (intro mult_strict_left_mono) simp_all
  then have "u * q < u" by simp
  then have "u * q < 2 powi (- 1022)" using le by (rule less_le_trans)
  moreover from pos q have "\<bar>u * q\<bar> = u * q" by (simp add: abs_mult)
  ultimately have small: "\<bar>u * q\<bar> < 2 powi (- 1022)" by (simp only:)
  have "binary64_round (u * q) = of_int (round_half_even (u * q / 2 powi (- 1074))) * 2 powi (- 1074)"
    using nz small by (rule binary64_round_subnormal)
  also have "u * q / 2 powi (- 1074) = q" using pos unfolding u [symmetric] by simp
  also have "round_half_even q = 0" using q by (intro round_half_even_near) simp
  finally show ?thesis by simp
qed

lemma binary64_round_min_subnormal:
  fixes u :: rat
  assumes u: "u = 2 powi (- 1074)"
  shows "binary64_round u = u"
proof -
  have pos: "0 < u" unfolding u by (rule zero_less_power_int) simp
  have "(2::rat) powi (- 1074) < 2 powi (- 1022)" by (rule power_int_strict_increasing) simp_all
  with pos have small: "\<bar>u\<bar> < 2 powi (- 1022)" unfolding u by simp
  from pos have nz: "u \<noteq> 0" by simp
  have "binary64_round u = of_int (round_half_even (u / 2 powi (- 1074))) * 2 powi (- 1074)"
    using nz small by (rule binary64_round_subnormal)
  also have "u / 2 powi (- 1074) = 1" using pos unfolding u [symmetric] by simp
  also have "round_half_even 1 = 1" using round_half_even_of_int [of 1] by simp
  finally show ?thesis unfolding u [symmetric] by simp
qed

lemma new_spacing_underflow_example:
  fixes u :: rat
  assumes u: "u = 2 powi (- 1074)"
  shows "new_spacing [Finite u, Finite 1, Finite 1] [1, 64, 64] [3, 64, 64]
           = Inr [Finite 0, Finite 1, Finite 1]"
    and "float_mul (Finite 0) (Finite 3) = Finite 0"
    and "float_mul (Finite u) (Finite 1) = Finite u"
proof -
  have third: "int_true_div 1 3 = Inr (Finite (6004799503160661 / 18014398509481984))"
    by (simp add: int_true_div_def binary64_round_third below_overflow)
  have one: "int_true_div 64 64 = Inr (Finite 1)"
    by (simp add: int_true_div_def binary64_round_1 below_overflow)
  have r0: "binary64_round (u * (6004799503160661 / 18014398509481984)) = 0"
    using u by (rule binary64_round_underflow) simp_all
  have m0: "float_mul (Finite u) (Finite (6004799503160661 / 18014398509481984)) = Finite 0"
    by (subst float_mul_Finite) (simp_all only: r0, simp_all)
  have m1: "float_mul (Finite 1) (Finite 1) = Finite 1"
    by (subst float_mul_Finite) (simp_all add: binary64_round_1 below_overflow)
  show "new_spacing [Finite u, Finite 1, Finite 1] [1, 64, 64] [3, 64, 64]
           = Inr [Finite 0, Finite 1, Finite 1]"
    by (simp add: new_spacing_def axis_spacing_def getitem_def third one m0 m1
        del: float_mul.simps)
  show "float_mul (Finite 0) (Finite 3) = Finite 0"
    by (simp add: binary64_round_def)
  have pos: "0 < u" unfolding u by (rule zero_less_power_int) simp
  have "(2::rat) powi (- 1074) \<le> 2 powi 0" by (rule power_int_increasing) simp_all
  then have le1: "u \<le> 1" unfolding u by simp
  have "(2::rat) ^ 0 < 2 ^ 1024" by (rule power_strict_increasing) simp_all
  then have "(1::rat) < 2 ^ 1024" by simp
  with pos le1 have "\<bar>binary64_round (u * 1)\<bar> < 2 ^ 1024"
    by (simp add: binary64_round_min_subnormal [OF u])
  then have "float_mul (Finite u) (Finite 1) = Finite (binary64_round (u * 1))"
    by (rule float_mul_Finite)
  then show "float_mul (Finite u) (Finite 1) = Finite u"
    by (simp add: binary64_round_min_subnormal [OF u])
qed

lemma axis_spacing_Inr:
  assumes "axis_spacing original_spacing original_size new_size k = Inr x"
  shows "k < length original_spacing \<and> k < length original_size \<and> k < length new_size
       \<and> new_size ! k \<noteq> 0
       \<and> int_true_div (original_size ! k) (new_size ! k)
            = Inr (Finite (binary64_round (of_int (original_size ! k) / of_int (new_size ! k))))
       \<and> x = float_mul (original_spacing ! k)
                (Finite (binary64_round (of_int (original_size ! k) / of_int (new_size ! k))))"
  using assms
  by (auto simp: axis_spacing_def getitem_def split: if_splits sum.splits dest: int_true_div_Inr)

lemma new_spacing_Inr:
  assumes "new_spacing original_spacing original_size new_size = Inr spacing"
  shows "length spacing = 3
       \<and> (\<forall>k<3. k < length new_size \<longrightarrow>
              axis_spacing original_spacing original_size new_size k = Inr (spacing ! k))
       \<and> (length new_size = 2 \<longrightarrow> spacing ! 2 = Finite 1)"
proof -
  from assms obtain x0 x1 x2 where
    0: "axis_spacing original_spacing original_size new_size 0 = Inr x0" and
    1: "axis_spacing original_spacing original_size new_size 1 = Inr x1" and
    2: "if length new_size > 2 then axis_spacing original_spacing original_size new_size 2 = Inr x2
        else x2 = Finite 1" and
    s: "spacing = [x0, x1, x2]"
    by (auto simp: new_spacing_def split: sum.splits if_splits)
  have "\<forall>k<3. k < length new_size \<longrightarrow>
          axis_spacing original_spacing original_size new_size k = Inr (spacing ! k)"
  proof (intro allI impI)
    fix k :: nat
    assume "k < 3" and k: "k < length new_size"
    then consider "k = 0" | "k = 1" | "k = 2" by linarith
    then show "axis_spacing original_spacing original_size new_size k = Inr (spacing ! k)"
    proof cases
      case 1 with 0 s show ?thesis by simp
    next
      case 2 with 1 s show ?thesis by simp
    next
      case 3 with 2 s k show ?thesis by simp
    qed
  qed
  moreover from 2 s have "length new_size = 2 \<longrightarrow> spacing ! 2 = Finite 1" by simp
  ultimately show ?thesis using s by simp
qed

subsection \<open>A run of the resize operation\<close>

lemma resize_image_returned:
  "resize_image Resample WriteImage json_dump img image_path new_size output_path output_format = Inr out \<Longrightarrow>
     returned out =
       (join output_path (fst (splitext (basename image_path)) @ ''_resized.''
           @ effective_output_format image_path output_format),
        join output_path (fst (splitext (basename image_path)) @ ''_resized_meta.json''))"
  by (auto simp: resize_image_def Let_def split: sum.splits)

lemma splitext_scan_nii: "splitext ''scan.nii'' = (''scan'', ''.nii'')"
proof -
  have "splitext (''scan'' @ ''.'' @ ''nii'') = (''scan'', ''.'' @ ''nii'')"
    by (rule splitext_last_dot) (simp_all add: basename_def rfind_def)
  then show ?thesis by simp
qed

lemma splitext_data_scan_nii: "splitext ''/data/scan.nii'' = (''/data/scan'', ''.nii'')"
proof -
  have "splitext (''/data/scan'' @ ''.'' @ ''nii'') = (''/data/scan'', ''.'' @ ''nii'')"
    by (rule splitext_last_dot) (simp_all add: basename_def rfind_def)
  then show ?thesis by simp
qed

lemma resize_image_example:
  "resize_image (\<lambda>img size spacing. Inr (size, spacing)) (\<lambda>resized path. Inr ())
     (\<lambda>path metadata. Inr ())
     \<lparr>GetSize = [64, 64, 32], GetSpacing = [Finite 1, Finite 1, Finite 2],
      GetDirection = [Finite 1, Finite 0, Finite 0, Finite 0, Finite 1, Finite 0,
                      Finite 0, Finite 0, Finite 1],
      GetOrigin = [Finite 0, Finite 0, Finite 0], GetPixelID = 2, voxels = ()\<rparr>
     ''/data/scan.nii'' [32, 32, 16] ''/out'' None
   = Inr \<lparr>returned = (''/out/scan_resized.nii'', ''/out/scan_resized_meta.json''),
          written =
            [(''/out/scan_resized.nii'', ImageFile ([32, 32, 16], [Finite 2, Finite 2, Finite 4])),
             (''/out/scan_resized_meta.json'',
              JsonFile [(''original_size'', IntTuple [64, 64, 32]),
                        (''original_spacing'', FloatTuple [Finite 1, Finite 1, Finite 2]),
                        (''original_direction'',
                         FloatTuple [Finite 1, Finite 0, Finite 0, Finite 0, Finite 1, Finite 0,
                                     Finite 0, Finite 0, Finite 1]),
                        (''original_origin'', FloatTuple [Finite 0, Finite 0, Finite 0])])]\<rparr>"
proof -
  have b: "basename ''/data/scan.nii'' = ''scan.nii''" by (simp add: basename_def rfind_def)
  show ?thesis
    by (simp add: resize_image_def new_spacing_example effective_output_format_def b
        splitext_scan_nii splitext_data_scan_nii join_def Let_def)
qed

subsection \<open>The output format\<close>

text \<open>
  Claim C6, amended. With no output format given, the format is the extension that
  \<^verbatim>\<open>os.path.splitext\<close> finds in the source path without its dot: the part after the last
  dot of the last path component, whenever that dot has a character other than a dot before it
  in the component; it is empty when the last component has no dot. For \<^verbatim>\<open>foo.nii.gz\<close> the
  format is \<^verbatim>\<open>gz\<close> (the part after the first dot would be \<^verbatim>\<open>nii.gz\<close>). The image is then
  written to \<^verbatim>\<open><base>_resized.<format>\<close> in the output directory.
\<close>

theorem output_format_after_last_dot:
  "(CHR ''.'' \<notin> set ext \<and> CHR ''/'' \<notin> set ext \<and> (\<exists>c\<in>set (basename stem). c \<noteq> CHR ''.'') \<longrightarrow>
      effective_output_format (stem @ ''.'' @ ext) None = ext)
   \<and> (CHR ''.'' \<notin> set (basename p) \<longrightarrow> effective_output_format p None = [])
   \<and> effective_output_format ''foo.nii.gz'' None = ''gz''
   \<and> (resize_image Resample WriteImage json_dump img image_path new_size output_path None = Inr out \<longrightarrow>
        fst (returned out) =
          join output_path (fst (splitext (basename image_path)) @ ''_resized.''
            @ drop 1 (snd (splitext image_path))))"
proof (intro conjI impI)
  assume "CHR ''.'' \<notin> set ext \<and> CHR ''/'' \<notin> set ext \<and> (\<exists>c\<in>set (basename stem). c \<noteq> CHR ''.'')"
  then have "splitext (stem @ ''.'' @ ext) = (stem, ''.'' @ ext)"
    by (intro splitext_last_dot) simp_all
  then show "effective_output_format (stem @ ''.'' @ ext) None = ext"
    by (simp add: effective_output_format_def)
next
  assume "CHR ''.'' \<notin> set (basename p)"
  then show "effective_output_format p None = []"
    by (simp add: effective_output_format_def splitext_no_dot)
next
  show "effective_output_format ''foo.nii.gz'' None = ''gz''"
    by (simp add: effective_output_format_def splitext_foo_nii_gz)
next
  assume "resize_image Resample WriteImage json_dump img image_path new_size output_path None = Inr out"
  from resize_image_returned [OF this]
  show "fst (returned out) =
          join output_path (fst (splitext (basename image_path)) @ ''_resized.''
            @ drop 1 (snd (splitext image_path)))"
    by (simp add: effective_output_format_def)
qed

theorem output_format_first_dot_counterexample:
  "effective_output_format ''foo.nii.gz'' None = ''gz''
   \<and> part_after_first_dot ''foo.nii.gz'' = ''nii.gz''
   \<and> effective_output_format ''foo.nii.gz'' None \<noteq> part_after_first_dot ''foo.nii.gz''"
  by (simp add: effective_output_format_def splitext_foo_nii_gz part_after_first_dot_def)


theorem output_format_after_last_dot_witness:
  "CHR ''.'' \<notin> set ''nii'' \<and> CHR ''/'' \<notin> set ''nii''
   \<and> (\<exists>c\<in>set (basename ''/data/scan''). c \<noteq> CHR ''.'')
   \<and> effective_output_format ''/data/scan.nii'' None = ''nii''
   \<and> CHR ''.'' \<notin> set (basename ''/data.v2/scan'')
   \<and> effective_output_format ''/data.v2/scan'' None = []
   \<and> (\<exists>out. resize_image (\<lambda>img size spacing. Inr (size, spacing)) (\<lambda>resized path. Inr ())
          (\<lambda>path metadata. Inr ())
          \<lparr>GetSize = [64, 64, 32], GetSpacing = [Finite 1, Finite 1, Finite 2],
           GetDirection = [Finite 1, Finite 0, Finite 0, Finite 0, Finite 1, Finite 0,
                           Finite 0, Finite 0, Finite 1],
           GetOrigin = [Finite 0, Finite 0, Finite 0], GetPixelID = 2, voxels = ()\<rparr>
          ''/data/scan.nii'' [32, 32, 16] ''/out'' None = Inr out
        \<and> fst (returned out) = ''/out/scan_resized.nii''
        \<and> fst (returned out)
            = join ''/out'' (fst (splitext (basename ''/data/scan.nii'')) @ ''_resized.''
                @ drop 1 (snd (splitext ''/data/scan.nii''))))"
proof -
  let ?Resample = "\<lambda>(img :: unit sitk_image) (size :: int list) (spacing :: py_float list).
      (Inr (size, spacing) :: py_error + int list \<times> py_float list)"
  let ?WriteImage = "\<lambda>(resized :: int list \<times> py_float list) (path :: string). (Inr () :: py_error + unit)"
  let ?json_dump = "\<lambda>(path :: string) (metadata :: (string \<times> json_value) list). (Inr () :: py_error + unit)"
  let ?img = "\<lparr>GetSize = [64, 64, 32], GetSpacing = [Finite 1, Finite 1, Finite 2],
           GetDirection = [Finite 1, Finite 0, Finite 0, Finite 0, Finite 1, Finite 0,
                           Finite 0, Finite 0, Finite 1],
           GetOrigin = [Finite 0, Finite 0, Finite 0], GetPixelID = 2, voxels = ()\<rparr>"
  let ?out = "\<lparr>returned = (''/out/scan_resized.nii'', ''/out/scan_resized_meta.json''),
          written =
            [(''/out/scan_resized.nii'', ImageFile ([32, 32, 16 :: int], [Finite 2, Finite 2, Finite 4])),
             (''/out/scan_resized_meta.json'',
              JsonFile [(''original_size'', IntTuple [64, 64, 32]),
                        (''original_spacing'', FloatTuple [Finite 1, Finite 1, Finite 2]),
                        (''original_direction'',
                         FloatTuple [Finite 1, Finite 0, Finite 0, Finite 0, Finite 1, Finite 0,
                                     Finite 0, Finite 0, Finite 1]),
                        (''original_origin'', FloatTuple [Finite 0, Finite 0, Finite 0])])]\<rparr>"
  have h1: "CHR ''.'' \<notin> set ''nii'' \<and> CHR ''/'' \<notin> set ''nii''
      \<and> (\<exists>c\<in>set (basename ''/data/scan''). c \<noteq> CHR ''.'')"
    by (simp add: basename_def rfind_def)
  have h2: "CHR ''.'' \<notin> set (basename ''/data.v2/scan'')" by (simp add: basename_def rfind_def)
  have h3: "resize_image ?Resample ?WriteImage ?json_dump ?img ''/data/scan.nii'' [32, 32, 16] ''/out'' None = Inr ?out"
    by (rule resize_image_example)
  note t = output_format_after_last_dot [where ext = "''nii''" and stem = "''/data/scan''"
      and p = "''/data.v2/scan''" and Resample = ?Resample and WriteImage = ?WriteImage and json_dump = ?json_dump
      and img = ?img and image_path = "''/data/scan.nii''" and new_size = "[32, 32, 16]"
      and output_path = "''/out''" and out = ?out]
  from t h1 have a: "effective_output_format ''/data/scan.nii'' None = ''nii''" by simp
  from t h2 have b: "effective_output_format ''/data.v2/scan'' None = []" by simp
  from t h3 have c: "fst (returned ?out)
            = join ''/out'' (fst (splitext (basename ''/data/scan.nii'')) @ ''_resized.''
                @ drop 1 (snd (splitext ''/data/scan.nii'')))" by blast
  have d: "fst (returned ?out) = ''/out/scan_resized.nii''" by simp
  from h3 c d have "\<exists>out. resize_image ?Resample ?WriteImage ?json_dump ?img ''/data/scan.nii'' [32, 32, 16] ''/out'' None = Inr out
        \<and> fst (returned out) = ''/out/scan_resized.nii''
        \<and> fst (returned out)
            = join ''/out'' (fst (splitext (basename ''/data/scan.nii'')) @ ''_resized.''
                @ drop 1 (snd (splitext ''/data/scan.nii'')))" by blast
  with h1 h2 a b show ?thesis by blast
qed

subsection \<open>The metadata sidecar\<close>

text \<open>
  Claim C8. On every valid input, that is whenever the new spacing is computed and
  \<^verbatim>\<open>sitk.Resample\<close>, \<^verbatim>\<open>sitk.WriteImage\<close> and the write of the sidecar return, \<^verbatim>\<open>resize_image\<close>
  returns and has written two files: the resampled image, and at
  \<^verbatim>\<open><base>_resized_meta.json\<close> the dictionary handed to \<^verbatim>\<open>json.dump\<close>, whose keys are exactly
  \<^verbatim>\<open>original_size\<close>, \<^verbatim>\<open>original_spacing\<close>, \<^verbatim>\<open>original_direction\<close> and \<^verbatim>\<open>original_origin\<close>, with
  the size, spacing, direction and origin the source image had before resampling. Conversely
  every run that returns has written exactly these two files.
\<close>

theorem metadata_sidecar:
  "(new_spacing (GetSpacing img) (GetSize img) new_size = Inr spacing
      \<and> Resample img new_size spacing = Inr resized_image
      \<and> WriteImage resized_image
            (join output_path (fst (splitext (basename image_path)) @ ''_resized.''
               @ effective_output_format image_path output_format)) = Inr ()
      \<and> json_dump (join output_path (fst (splitext (basename image_path)) @ ''_resized_meta.json''))
            [(''original_size'', IntTuple (GetSize img)),
             (''original_spacing'', FloatTuple (GetSpacing img)),
             (''original_direction'', FloatTuple (GetDirection img)),
             (''original_origin'', FloatTuple (GetOrigin img))] = Inr ()
    \<longrightarrow> resize_image Resample WriteImage json_dump img image_path new_size output_path output_format
          = Inr \<lparr>returned =
                   (join output_path (fst (splitext (basename image_path)) @ ''_resized.''
                      @ effective_output_format image_path output_format),
                    join output_path (fst (splitext (basename image_path)) @ ''_resized_meta.json'')),
                 written =
                   [(join output_path (fst (splitext (basename image_path)) @ ''_resized.''
                       @ effective_output_format image_path output_format),
                     ImageFile resized_image),
                    (join output_path (fst (splitext (basename image_path)) @ ''_resized_meta.json''),
                     JsonFile [(''original_size'', IntTuple (GetSize img)),
                               (''original_spacing'', FloatTuple (GetSpacing img)),
                               (''original_direction'', FloatTuple (GetDirection img)),
                               (''original_origin'', FloatTuple (GetOrigin img))])]\<rparr>)
   \<and> (resize_image Resample WriteImage json_dump img image_path new_size output_path output_format
          = Inr out
    \<longrightarrow> (\<exists>resized metadata.
           written out = [(fst (returned out), ImageFile resized),
                          (snd (returned out), JsonFile metadata)]
         \<and> snd (returned out)
             = join output_path (fst (splitext (basename image_path)) @ ''_resized_meta.json'')
         \<and> map fst metadata
             = [''original_size'', ''original_spacing'', ''original_direction'', ''original_origin'']
         \<and> map_of metadata ''original_size'' = Some (IntTuple (GetSize img))
         \<and> map_of metadata ''original_spacing'' = Some (FloatTuple (GetSpacing img))
         \<and> map_of metadata ''original_direction'' = Some (FloatTuple (GetDirection img))
         \<and> map_of metadata ''original_origin'' = Some (FloatTuple (GetOrigin img))))"
proof (intro conjI impI)
  assume "new_spacing (GetSpacing img) (GetSize img) new_size = Inr spacing
      \<and> Resample img new_size spacing = Inr resized_image
      \<and> WriteImage resized_image
            (join output_path (fst (splitext (basename image_path)) @ ''_resized.''
               @ effective_output_format image_path output_format)) = Inr ()
      \<and> json_dump (join output_path (fst (splitext (basename image_path)) @ ''_resized_meta.json''))
            [(''original_size'', IntTuple (GetSize img)),
             (''original_spacing'', FloatTuple (GetSpacing img)),
             (''original_direction'', FloatTuple (GetDirection img)),
             (''original_origin'', FloatTuple (GetOrigin img))] = Inr ()"
  then show "resize_image Resample WriteImage json_dump img image_path new_size output_path output_format
          = Inr \<lparr>returned =
                   (join output_path (fst (splitext (basename image_path)) @ ''_resized.''
                      @ effective_output_format image_path output_format),
                    join output_path (fst (splitext (basename image_path)) @ ''_resized_meta.json'')),
                 written =
                   [(join output_path (fst (splitext (basename image_path)) @ ''_resized.''
                       @ effective_output_format image_path output_format),
                     ImageFile resized_image),
                    (join output_path (fst (splitext (basename image_path)) @ ''_resized_meta.json''),
                     JsonFile [(''original_size'', IntTuple (GetSize img)),
                               (''original_spacing'', FloatTuple (GetSpacing img)),
                               (''original_direction'', FloatTuple (GetDirection img)),
                               (''original_origin'', FloatTuple (GetOrigin img))])]\<rparr>"
    by (simp add: resize_image_def Let_def)
next
  assume "resize_image Resample WriteImage json_dump img image_path new_size output_path output_format
          = Inr out"
  then show "\<exists>resized metadata.
           written out = [(fst (returned out), ImageFile resized),
                          (snd (returned out), JsonFile metadata)]
         \<and> snd (returned out)
             = join output_path (fst (splitext (basename image_path)) @ ''_resized_meta.json'')
         \<and> map fst metadata
             = [''original_size'', ''original_spacing'', ''original_direction'', ''original_origin'']
         \<and> map_of metadata ''original_size'' = Some (IntTuple (GetSize img))
         \<and> map_of metadata ''original_spacing'' = Some (FloatTuple (GetSpacing img))
         \<and> map_of metadata ''original_direction'' = Some (FloatTuple (GetDirection img))
         \<and> map_of metadata ''original_origin'' = Some (FloatTuple (GetOrigin img))"
    by (auto simp: resize_image_def Let_def split: sum.splits)
qed

theorem metadata_sidecar_witness:
  "new_spacing [Finite 1, Finite 1, Finite 2] [64, 64, 32] [32, 32, 16]
     = Inr [Finite 2, Finite 2, Finite 4]
   \<and> resize_image (\<lambda>img size spacing. Inr (size, spacing)) (\<lambda>resized path. Inr ())
       (\<lambda>path metadata. Inr ())
       \<lparr>GetSize = [64, 64, 32], GetSpacing = [Finite 1, Finite 1, Finite 2],
        GetDirection = [Finite 1, Finite 0, Finite 0, Finite 0, Finite 1, Finite 0,
                        Finite 0, Finite 0, Finite 1],
        GetOrigin = [Finite 0, Finite 0, Finite 0], GetPixelID = 2, voxels = ()\<rparr>
       ''/data/scan.nii'' [32, 32, 16] ''/out'' None
     = Inr \<lparr>returned = (''/out/scan_resized.nii'', ''/out/scan_resized_meta.json''),
            written =
              [(''/out/scan_resized.nii'', ImageFile ([32, 32, 16], [Finite 2, Finite 2, Finite 4])),
               (''/out/scan_resized_meta.json'',
                JsonFile [(''original_size'', IntTuple [64, 64, 32]),
                          (''original_spacing'', FloatTuple [Finite 1, Finite 1, Finite 2]),
                          (''original_direction'',
                           FloatTuple [Finite 1, Finite 0, Finite 0, Finite 0, Finite 1, Finite 0,
                                       Finite 0, Finite 0, Finite 1]),
                          (''original_origin'', FloatTuple [Finite 0, Finite 0, Finite 0])])]\<rparr>"
proof -
  let ?Resample = "\<lambda>(img :: unit sitk_image) (size :: int list) (spacing :: py_float list).
      (Inr (size, spacing) :: py_error + int list \<times> py_float list)"
  let ?WriteImage = "\<lambda>(resized :: int list \<times> py_float list) (path :: string). (Inr () :: py_error + unit)"
  let ?json_dump = "\<lambda>(path :: string) (metadata :: (string \<times> json_value) list). (Inr () :: py_error + unit)"
  let ?img = "\<lparr>GetSize = [64, 64, 32], GetSpacing = [Finite 1, Finite 1, Finite 2],
           GetDirection = [Finite 1, Finite 0, Finite 0, Finite 0, Finite 1, Finite 0,
                           Finite 0, Finite 0, Finite 1],
           GetOrigin = [Finite 0, Finite 0, Finite 0], GetPixelID = 2, voxels = ()\<rparr>"
  have b: "basename ''/data/scan.nii'' = ''scan.nii''" by (simp add: basename_def rfind_def)
  have ns: "new_spacing (GetSpacing ?img) (GetSize ?img) [32, 32, 16] = Inr [Finite 2, Finite 2, Finite 4]"
    by (simp add: new_spacing_example)
  note t = metadata_sidecar [where Resample = ?Resample and WriteImage = ?WriteImage
      and json_dump = ?json_dump and img = ?img and image_path = "''/data/scan.nii''"
      and new_size = "[32, 32, 16]" and output_path = "''/out''" and output_format = None
      and spacing = "[Finite 2, Finite 2, Finite 4]"
      and resized_image = "([32, 32, 16], [Finite 2, Finite 2, Finite 4])"]
  from t ns have "resize_image ?Resample ?WriteImage ?json_dump ?img ''/data/scan.nii'' [32, 32, 16] ''/out'' None
          = Inr \<lparr>returned =
                   (join ''/out'' (fst (splitext (basename ''/data/scan.nii'')) @ ''_resized.''
                      @ effective_output_format ''/data/scan.nii'' None),
                    join ''/out'' (fst (splitext (basename ''/data/scan.nii'')) @ ''_resized_meta.json'')),
                 written =
                   [(join ''/out'' (fst (splitext (basename ''/data/scan.nii'')) @ ''_resized.''
                       @ effective_output_format ''/data/scan.nii'' None),
                     ImageFile ([32, 32, 16], [Finite 2, Finite 2, Finite 4])),
                    (join ''/out'' (fst (splitext (basename ''/data/scan.nii'')) @ ''_resized_meta.json''),
                     JsonFile [(''original_size'', IntTuple (GetSize ?img)),
                               (''original_spacing'', FloatTuple (GetSpacing ?img)),
                               (''original_direction'', FloatTuple (GetDirection ?img)),
                               (''original_origin'', FloatTuple (GetOrigin ?img))])]\<rparr>"
    by blast
  then have "resize_image ?Resample ?WriteImage ?json_dump ?img ''/data/scan.nii'' [32, 32, 16] ''/out'' None
     = Inr \<lparr>returned = (''/out/scan_resized.nii'', ''/out/scan_resized_meta.json''),
            written =
              [(''/out/scan_resized.nii'', ImageFile ([32, 32, 16], [Finite 2, Finite 2, Finite 4])),
               (''/out/scan_resized_meta.json'',
                JsonFile [(''original_size'', IntTuple [64, 64, 32]),
                          (''original_spacing'', FloatTuple [Finite 1, Finite 1, Finite 2]),
                          (''original_direction'',
                           FloatTuple [Finite 1, Finite 0, Finite 0, Finite 0, Finite 1, Finite 0,
                                       Finite 0, Finite 0, Finite 1]),
                          (''original_origin'', FloatTuple [Finite 0, Finite 0, Finite 0])])]\<rparr>"
    by (simp add: effective_output_format_def b splitext_scan_nii splitext_data_scan_nii join_def)
  with new_spacing_example show ?thesis by blast
qed

subsection \<open>The new spacing and the physical extent\<close>

text \<open>
  Claim C1, amended. Whenever the new spacing is computed, it has three entries; for each
  of the first three axes the target size lists, the entry is the float product
  \<^verbatim>\<open>original_spacing[k] * (original_size[k] / new_size[k])\<close>, and the third entry is \<open>1.0\<close>
  when the target size has two entries. Both operations round to binary64, so the extent
  is preserved within floating-point tolerance, and only where nothing underflows or
  overflows: when the original spacing is finite, the exact quotient
  \<open>original_size[k] / new_size[k]\<close> and the exact product of the spacing with it are at least
  \<open>2 powi (- 1022)\<close> in magnitude, and the computed spacing is finite, then
  \<open>\<bar>new_spacing[k] * new_size[k] - original_spacing[k] * original_size[k]\<bar>\<close> is at most
  \<open>2 powi (- 51)\<close> times \<open>\<bar>original_spacing[k] * original_size[k]\<bar>\<close>. The computed spacing is
  finite whenever that exact product is at most \<open>2 powi 1023\<close> in magnitude. A
  \<open>(64, 64, 32)\<close> volume with spacing \<open>(1.0, 1.0, 2.0)\<close> resized to \<open>[32, 32, 16]\<close> gets the
  spacing \<open>(2.0, 2.0, 4.0)\<close>.
\<close>

theorem new_spacing_preserves_extent:
  assumes "new_spacing original_spacing original_size new_size = Inr spacing"
  shows "length spacing = 3
       \<and> (\<forall>k<3. k < length new_size \<longrightarrow>
            (\<exists>q. int_true_div (original_size ! k) (new_size ! k) = Inr q
                 \<and> spacing ! k = float_mul (original_spacing ! k) q))
       \<and> (length new_size = 2 \<longrightarrow> spacing ! 2 = Finite 1)
       \<and> (\<forall>k<3. \<forall>s v. k < length new_size \<and> original_spacing ! k = Finite s
              \<and> spacing ! k = Finite v
              \<and> 2 powi (- 1022) \<le> \<bar>rat_of_int (original_size ! k) / of_int (new_size ! k)\<bar>
              \<and> 2 powi (- 1022) \<le> \<bar>s * (of_int (original_size ! k) / of_int (new_size ! k))\<bar> \<longrightarrow>
            \<bar>v * of_int (new_size ! k) - s * of_int (original_size ! k)\<bar>
                 \<le> 2 powi (- 51) * \<bar>s * of_int (original_size ! k)\<bar>)
       \<and> (\<forall>k<3. \<forall>s. k < length new_size \<and> original_spacing ! k = Finite s
              \<and> 2 powi (- 1022) \<le> \<bar>rat_of_int (original_size ! k) / of_int (new_size ! k)\<bar>
              \<and> 2 powi (- 1022) \<le> \<bar>s * (of_int (original_size ! k) / of_int (new_size ! k))\<bar>
              \<and> \<bar>s * (of_int (original_size ! k) / of_int (new_size ! k))\<bar> \<le> 2 powi 1023 \<longrightarrow>
            (\<exists>v. spacing ! k = Finite v))
       \<and> new_spacing [Finite 1, Finite 1, Finite 2] [64, 64, 32] [32, 32, 16]
            = Inr [Finite 2, Finite 2, Finite 4]"
proof -
  note ns = new_spacing_Inr [OF assms]
  from ns have ax: "\<And>k. k < 3 \<Longrightarrow> k < length new_size \<Longrightarrow>
      axis_spacing original_spacing original_size new_size k = Inr (spacing ! k)" by blast
  have formula: "\<forall>k<3. k < length new_size \<longrightarrow>
            (\<exists>q. int_true_div (original_size ! k) (new_size ! k) = Inr q
                 \<and> spacing ! k = float_mul (original_spacing ! k) q)"
  proof (intro allI impI)
    fix k :: nat
    assume "k < 3" and "k < length new_size"
    then have "axis_spacing original_spacing original_size new_size k = Inr (spacing ! k)" by (rule ax)
    from axis_spacing_Inr [OF this]
    show "\<exists>q. int_true_div (original_size ! k) (new_size ! k) = Inr q
                 \<and> spacing ! k = float_mul (original_spacing ! k) q" by blast
  qed
  have tolerance: "\<forall>k<3. \<forall>s v. k < length new_size \<and> original_spacing ! k = Finite s
              \<and> spacing ! k = Finite v
              \<and> 2 powi (- 1022) \<le> \<bar>rat_of_int (original_size ! k) / of_int (new_size ! k)\<bar>
              \<and> 2 powi (- 1022) \<le> \<bar>s * (of_int (original_size ! k) / of_int (new_size ! k))\<bar> \<longrightarrow>
            \<bar>v * of_int (new_size ! k) - s * of_int (original_size ! k)\<bar>
                 \<le> 2 powi (- 51) * \<bar>s * of_int (original_size ! k)\<bar>"
  proof (intro allI impI)
    fix k :: nat and s v :: rat
    let ?a = "rat_of_int (original_size ! k)" and ?b = "rat_of_int (new_size ! k)"
    assume "k < 3"
      and h: "k < length new_size \<and> original_spacing ! k = Finite s \<and> spacing ! k = Finite v
              \<and> 2 powi (- 1022) \<le> \<bar>?a / ?b\<bar>
              \<and> 2 powi (- 1022) \<le> \<bar>s * (?a / ?b)\<bar>"
    then have "axis_spacing original_spacing original_size new_size k = Inr (spacing ! k)"
      by (intro ax) simp_all
    from axis_spacing_Inr [OF this] h
    have b: "?b \<noteq> 0"
      and x: "float_mul (Finite s) (Finite (binary64_round (?a / ?b))) = Finite v" by simp_all
    from h have h1: "2 powi (- 1022) \<le> \<bar>?a / ?b\<bar>"
      and h2: "2 powi (- 1022) \<le> \<bar>s * (?a / ?b)\<bar>" by simp_all
    from float_mul_Finite_iff [OF x] have v: "v = binary64_round (s * binary64_round (?a / ?b))" .
    from spacing_product_error [OF b h1 h2]
    show "\<bar>v * ?b - s * ?a\<bar> \<le> 2 powi (- 51) * \<bar>s * ?a\<bar>" unfolding v .
  qed
  have finite: "\<forall>k<3. \<forall>s. k < length new_size \<and> original_spacing ! k = Finite s
              \<and> 2 powi (- 1022) \<le> \<bar>rat_of_int (original_size ! k) / of_int (new_size ! k)\<bar>
              \<and> 2 powi (- 1022) \<le> \<bar>s * (of_int (original_size ! k) / of_int (new_size ! k))\<bar>
              \<and> \<bar>s * (of_int (original_size ! k) / of_int (new_size ! k))\<bar> \<le> 2 powi 1023 \<longrightarrow>
            (\<exists>v. spacing ! k = Finite v)"
  proof (intro allI impI)
    fix k :: nat and s :: rat
    let ?a = "rat_of_int (original_size ! k)" and ?b = "rat_of_int (new_size ! k)"
    assume "k < 3"
      and h: "k < length new_size \<and> original_spacing ! k = Finite s
              \<and> 2 powi (- 1022) \<le> \<bar>?a / ?b\<bar>
              \<and> 2 powi (- 1022) \<le> \<bar>s * (?a / ?b)\<bar>
              \<and> \<bar>s * (?a / ?b)\<bar> \<le> 2 powi 1023"
    then have "axis_spacing original_spacing original_size new_size k = Inr (spacing ! k)"
      by (intro ax) simp_all
    from axis_spacing_Inr [OF this] h
    have x: "spacing ! k = float_mul (Finite s) (Finite (binary64_round (?a / ?b)))" by simp
    from h have h1: "2 powi (- 1022) \<le> \<bar>?a / ?b\<bar>"
      and h2: "2 powi (- 1022) \<le> \<bar>s * (?a / ?b)\<bar>"
      and h3: "\<bar>s * (?a / ?b)\<bar> \<le> 2 powi 1023" by simp_all
    from spacing_product_finite [OF h1 h2 h3]
    have "spacing ! k = Finite (binary64_round (s * binary64_round (?a / ?b)))"
      unfolding x by (rule float_mul_Finite)
    then show "\<exists>v. spacing ! k = Finite v" by blast
  qed
  from ns formula tolerance finite new_spacing_example show ?thesis by blast
qed

theorem new_spacing_preserves_extent_witness:
  "new_spacing [Finite 1, Finite 1, Finite 2] [64, 64, 32] [49, 49, 16]
     = Inr [Finite (5882252574524729 / 4503599627370496),
            Finite (5882252574524729 / 4503599627370496), Finite 4]
   \<and> int_true_div 64 49 = Inr (Finite (5882252574524729 / 4503599627370496))
   \<and> (2::rat) powi (- 1022) \<le> \<bar>64 / 49\<bar> \<and> \<bar>1 * (64 / 49)\<bar> \<le> (2::rat) powi 1023
   \<and> \<bar>(5882252574524729 / 4503599627370496 :: rat) * 49 - 1 * 64\<bar> \<le> 2 powi (- 51) * \<bar>1 * 64\<bar>"
proof -
  let ?sp = "[Finite 1, Finite 1, Finite 2]" and ?sz = "[64, 64, 32 :: int]" and ?ns = "[49, 49, 16 :: int]"
  let ?r = "[Finite (5882252574524729 / 4503599627370496),
            Finite (5882252574524729 / 4503599627370496), Finite 4]"
  note t = new_spacing_preserves_extent [OF new_spacing_example_49]
  from t have tol: "\<And>k s v. k < 3 \<Longrightarrow> k < length ?ns \<and> ?sp ! k = Finite s \<and> ?r ! k = Finite v
              \<and> 2 powi (- 1022) \<le> \<bar>rat_of_int (?sz ! k) / of_int (?ns ! k)\<bar>
              \<and> 2 powi (- 1022) \<le> \<bar>s * (of_int (?sz ! k) / of_int (?ns ! k))\<bar> \<Longrightarrow>
            \<bar>v * of_int (?ns ! k) - s * of_int (?sz ! k)\<bar>
                 \<le> 2 powi (- 51) * \<bar>s * of_int (?sz ! k)\<bar>" by blast
  have "(2::rat) powi (- 1022) \<le> 2 powi 0" by (rule power_int_increasing) simp_all
  then have a: "(2::rat) powi (- 1022) \<le> \<bar>64 / 49\<bar>" by simp
  then have b: "(2::rat) powi (- 1022) \<le> \<bar>1 * (64 / 49)\<bar>" by simp
  have "(2::rat) powi 1 \<le> 2 powi 1023" by (rule power_int_increasing) simp_all
  then have c: "\<bar>1 * (64 / 49)\<bar> \<le> (2::rat) powi 1023" by simp
  have k: "(0::nat) < 3" by simp
  have hyp: "0 < length ?ns \<and> ?sp ! 0 = Finite 1
              \<and> ?r ! 0 = Finite (5882252574524729 / 4503599627370496)
              \<and> 2 powi (- 1022) \<le> \<bar>rat_of_int (?sz ! 0) / of_int (?ns ! 0)\<bar>
              \<and> 2 powi (- 1022) \<le> \<bar>1 * (rat_of_int (?sz ! 0) / of_int (?ns ! 0))\<bar>"
    using a b by simp
  from tol [OF k hyp]
  have "\<bar>(5882252574524729 / 4503599627370496 :: rat) * 49 - 1 * 64\<bar> \<le> 2 powi (- 51) * \<bar>1 * 64\<bar>"
    by simp
  with new_spacing_example_49 int_true_div_examples(3) a c show ?thesis by blast
qed

theorem new_spacing_underflow_counterexample:
  "new_spacing [Finite (2 powi (- 1074)), Finite 1, Finite 1] [1, 64, 64] [3, 64, 64]
     = Inr [Finite 0, Finite 1, Finite 1]
   \<and> \<not> \<bar>(0::rat) * 3 - 2 powi (- 1074) * 1\<bar> \<le> 2 powi (- 51) * \<bar>2 powi (- 1074) * 1\<bar>
   \<and> float_mul (Finite 0) (Finite 3) = Finite 0
   \<and> float_mul (Finite (2 powi (- 1074))) (Finite 1) = Finite (2 powi (- 1074))
   \<and> Finite 0 \<noteq> Finite (2 powi (- 1074))"
proof -
  define u :: rat where "u = 2 powi (- 1074)"
  have pos: "0 < u" unfolding u_def by (rule zero_less_power_int) simp
  have c: "(2::rat) powi (- 51) = 1 / 2251799813685248" by simp
  from pos have far: "\<not> \<bar>0 * 3 - u * 1\<bar> \<le> 2 powi (- 51) * \<bar>u * 1\<bar>" unfolding c by simp
  from pos have ne: "Finite 0 \<noteq> Finite u" by simp
  from new_spacing_underflow_example [OF u_def] far ne
  show ?thesis unfolding u_def by blast
qed

section \<open>Properties of the normalisation\<close>

lemma save_loop_files:
  assumes "save_loop nrm wr output_path base sl w = Inr w'" and "(path, img) \<in> set (files w')"
  shows "(path, img) \<in> set (files w)
       \<or> (\<exists>name d dir. (name, d) \<in> set sl \<and> output_path = Some dir \<and> nrm d = Inr img
             \<and> path = join dir (base @ ''_'' @ name @ ''.png''))"
  using assms
proof (induction sl arbitrary: w)
  case Nil
  then show ?case by simp
next
  case (Cons nd sl)
  obtain name d where nd: "nd = (name, d)" by (cases nd)
  from Cons.prems(1) obtain v where v: "nrm d = Inr v"
    by (cases "nrm d") (simp_all add: nd)
  from Cons.prems(1) obtain dir where dir: "output_path = Some dir"
    by (cases output_path) (simp_all add: nd v)
  define f where "f = join dir (base @ ''_'' @ name @ ''.png'')"
  have f': "join dir (base @ CHR ''_'' # name @ ''.png'') = f" by (simp add: f_def)
  from Cons.prems(1) obtain ok where ok: "wr f v = Inr ok"
    by (cases "wr f v") (simp_all add: nd v dir f')
  define w1 where "w1 = \<lparr>files = (if ok then files w @ [(f, v)] else files w),
      output_files = output_files w @ [f]\<rparr>"
  from Cons.prems(1) have rest: "save_loop nrm wr output_path base sl w1 = Inr w'"
    using ok by (simp add: nd v dir f' w1_def)
  from Cons.IH [OF rest Cons.prems(2)] show ?case
  proof
    assume "(path, img) \<in> set (files w1)"
    then have "(path, img) \<in> set (files w) \<or> (path, img) = (f, v)"
      by (auto simp: w1_def split: if_splits)
    with v dir nd show ?thesis by (auto simp: f_def)
  next
    assume "\<exists>name d dir. (name, d) \<in> set sl \<and> output_path = Some dir \<and> nrm d = Inr img
             \<and> path = join dir (base @ ''_'' @ name @ ''.png'')"
    then show ?thesis by auto
  qed
qed

lemma extract_files:
  assumes "extract_2d_slices nrm wr a p location n output_path = Inr w"
    and "(path, img) \<in> set (files w)"
  shows "\<exists>slices name d. collect_slices a location n = Inr slices \<and> (name, d) \<in> set slices
       \<and> nrm d = Inr img"
proof -
  from assms(1) obtain slices where sl: "collect_slices a location n = Inr slices"
    and run: "save_loop nrm wr output_path (fst (splitext (basename p))) slices
        \<lparr>files = [], output_files = []\<rparr> = Inr w"
    by (auto simp: extract_2d_slices_def Let_def split: sum.splits)
  from save_loop_files [OF run assms(2)] sl show ?thesis by auto
qed

lemma minmax_u8_le: "minmax_u8 lo hi v \<le> 255"
  by (auto simp: minmax_u8_def nat_le_iff)

lemma minmax_u8_max: "lo < hi \<Longrightarrow> minmax_u8 lo hi hi = 255"
proof -
  assume "lo < hi"
  define d where "d = hi - lo"
  from \<open>lo < hi\<close> have "d \<noteq> 0" by (simp add: d_def)
  then have "d * 255 / d = of_int 255" by simp
  then have "(hi - lo) * 255 / (hi - lo) = of_int 255" by (simp only: d_def)
  then have "round_half_even ((hi - lo) * 255 / (hi - lo)) = 255"
    by (simp only: round_half_even_of_int)
  with \<open>lo < hi\<close> show ?thesis by (simp add: minmax_u8_def)
qed

lemma minmax_u8_min: "minmax_u8 lo hi lo = 0"
proof -
  have "round_half_even 0 = 0" using round_half_even_of_int [of 0] by simp
  then show ?thesis by (simp add: minmax_u8_def)
qed

lemma minmax_u8_constant: "minmax_u8 lo lo v = 0"
  by (simp add: minmax_u8_def)

lemma item_normalize_minmax:
  "idx \<in> set (index_tuples (shape src)) \<Longrightarrow>
     item (normalize_minmax src) idx
       = minmax_u8 (Min (set (array_values src))) (Max (set (array_values src))) (item src idx)"
  by (auto simp: normalize_minmax_def array_values_def Let_def)

lemma item_normalize_minmax_le: "item (normalize_minmax src) idx \<le> 255"
  by (simp add: normalize_minmax_def Let_def minmax_u8_le)

lemma extract_small_volume:
  fixes it :: "int list \<Rightarrow> rat"
  defines "a \<equiv> \<lparr>shape = [1, 2, 2], item = it\<rparr>"
  shows "collect_slices a None 1 =
           Inr [(''axial_0'', plane_at a 0 0), (''coronal_1'', plane_at a 1 1),
                (''sagittal_1'', plane_at a 2 1)]"
    and "extract_2d_slices (\<lambda>d. Inr (normalize_minmax d)) (\<lambda>path v. Inr True) a
           ''/data/scan.nii'' None 1 (Some ''/out'') =
         Inr \<lparr>files = [(''/out/scan_axial_0.png'', normalize_minmax (plane_at a 0 0)),
                       (''/out/scan_coronal_1.png'', normalize_minmax (plane_at a 1 1)),
                       (''/out/scan_sagittal_1.png'', normalize_minmax (plane_at a 2 1))],
              output_files = [''/out/scan_axial_0.png'', ''/out/scan_coronal_1.png'',
                              ''/out/scan_sagittal_1.png'']\<rparr>"
proof -
  have h1: "length (shape a) = 3" by (simp add: a_def)
  have c: "center_location a None = [0, 1, 1]" by (simp add: a_def center_location_def)
  have h2: "length (center_location a None) = 3" by (simp add: c)
  have w0: "window 0 1 1 = [0]" and w1: "window 1 1 2 = [1]"
    by (simp_all add: window_def py_range_def)
  have sh: "shape a ! 0 = 1" "shape a ! Suc 0 = 2" "shape a ! 2 = 2" by (simp_all add: a_def)
  show sl: "collect_slices a None 1 =
           Inr [(''axial_0'', plane_at a 0 0), (''coronal_1'', plane_at a 1 1),
                (''sagittal_1'', plane_at a 2 1)]"
    by (simp add: collect_slices_3d [OF h1 h2] c sh w0 w1 slice_name_def str_int_digit)
  have base: "fst (splitext (basename ''/data/scan.nii'')) = ''scan''"
    by (simp add: basename_def rfind_def splitext_def splitext_scan.simps)
  have n: "\<forall>(name, d)\<in>set [(''axial_0'', plane_at a 0 0), (''coronal_1'', plane_at a 1 1),
                (''sagittal_1'', plane_at a 2 1)].
      (\<lambda>d. Inr (normalize_minmax d) :: py_error + nat ndarray) d = Inr (normalize_minmax d)"
    by simp
  have w: "\<forall>(path :: string) (v :: nat ndarray).
      (\<lambda>path v. Inr True :: py_error + bool) path v = Inr ((\<lambda>path v. True) path v)"
    by simp
  from extract_of_collected [OF sl n w, of "''/data/scan.nii''" "''/out''"]
  show "extract_2d_slices (\<lambda>d. Inr (normalize_minmax d)) (\<lambda>path v. Inr True) a
           ''/data/scan.nii'' None 1 (Some ''/out'') =
         Inr \<lparr>files = [(''/out/scan_axial_0.png'', normalize_minmax (plane_at a 0 0)),
                       (''/out/scan_coronal_1.png'', normalize_minmax (plane_at a 1 1)),
                       (''/out/scan_sagittal_1.png'', normalize_minmax (plane_at a 2 1))],
              output_files = [''/out/scan_axial_0.png'', ''/out/scan_coronal_1.png'',
                              ''/out/scan_sagittal_1.png'']\<rparr>"
    by (simp add: base join_def)
qed

lemma index_tuples_2_2: "index_tuples [2, 2] = [[0, 0], [0, 1], [1, 0], [1, 1]]"
  by (simp add: upto_rec1)

text \<open>
  Claim C9, amended. The pixel values written for a slice all lie in \<open>[0, 255]\<close>, and the
  voxel of maximum intensity of the source slice maps to 255 whenever the slice is not
  constant (its minimum is below its maximum), its voxel of minimum intensity then mapping
  to 0; every pixel of a constant slice maps to 0, its maximum included. Here the
  normalisation is the min-max normalisation of the specification, \<open>normalize_minmax\<close>, put
  in the place of \<^verbatim>\<open>cv2.normalize\<close>.
\<close>

theorem normalized_pixel_range:
  assumes "extract_2d_slices (\<lambda>d. Inr (normalize_minmax d)) cv2_imwrite array image_path
             location n output_path = Inr w"
    and "(path, img) \<in> set (files w)"
  shows "\<exists>slices name src.
           collect_slices array location n = Inr slices \<and> (name, src) \<in> set slices
         \<and> img = normalize_minmax src
         \<and> (\<forall>idx. item img idx \<le> 255)
         \<and> (\<forall>idx\<in>set (index_tuples (shape src)).
              (Min (set (array_values src)) < Max (set (array_values src))
                 \<and> item src idx = Max (set (array_values src)) \<longrightarrow> item img idx = 255)
            \<and> (Min (set (array_values src)) < Max (set (array_values src))
                 \<and> item src idx = Min (set (array_values src)) \<longrightarrow> item img idx = 0)
            \<and> (Min (set (array_values src)) = Max (set (array_values src)) \<longrightarrow> item img idx = 0))"
proof -
  from extract_files [OF assms] obtain slices name src where
    sl: "collect_slices array location n = Inr slices" and mem: "(name, src) \<in> set slices"
    and img: "img = normalize_minmax src" by auto
  have "\<forall>idx\<in>set (index_tuples (shape src)).
              (Min (set (array_values src)) < Max (set (array_values src))
                 \<and> item src idx = Max (set (array_values src)) \<longrightarrow> item img idx = 255)
            \<and> (Min (set (array_values src)) < Max (set (array_values src))
                 \<and> item src idx = Min (set (array_values src)) \<longrightarrow> item img idx = 0)
            \<and> (Min (set (array_values src)) = Max (set (array_values src)) \<longrightarrow> item img idx = 0)"
    unfolding img
    by (auto simp: item_normalize_minmax minmax_u8_max minmax_u8_min minmax_u8_constant)
  moreover have "\<forall>idx. item img idx \<le> 255" unfolding img by (simp add: item_normalize_minmax_le)
  ultimately show ?thesis using sl mem img by blast
qed

theorem normalized_pixel_range_witness:
  "\<exists>w img.
      extract_2d_slices (\<lambda>d. Inr (normalize_minmax d)) (\<lambda>path v. Inr True)
        (\<lparr>shape = [1, 2, 2], item = (\<lambda>idx. of_int (2 * (idx ! 1) + idx ! 2))\<rparr> :: rat ndarray)
        ''/data/scan.nii'' None 1 (Some ''/out'') = Inr w
    \<and> (''/out/scan_axial_0.png'', img) \<in> set (files w)
    \<and> array_values
         (plane_at (\<lparr>shape = [1, 2, 2], item = (\<lambda>idx. of_int (2 * (idx ! 1) + idx ! 2))\<rparr> :: rat ndarray) 0 0)
         = [0, 1, 2, 3]
    \<and> array_values img = [0, 85, 170, 255]
    \<and> (\<exists>slices name src.
          collect_slices (\<lparr>shape = [1, 2, 2], item = (\<lambda>idx. of_int (2 * (idx ! 1) + idx ! 2))\<rparr> :: rat ndarray)
            None 1 = Inr slices
        \<and> (name, src) \<in> set slices \<and> img = normalize_minmax src
        \<and> (\<forall>idx. item img idx \<le> 255))"
proof -
  define a :: "rat ndarray"
    where "a = \<lparr>shape = [1, 2, 2], item = (\<lambda>idx. of_int (2 * (idx ! 1) + idx ! 2))\<rparr>"
  define w where "w = \<lparr>files = [(''/out/scan_axial_0.png'', normalize_minmax (plane_at a 0 0)),
                       (''/out/scan_coronal_1.png'', normalize_minmax (plane_at a 1 1)),
                       (''/out/scan_sagittal_1.png'', normalize_minmax (plane_at a 2 1))],
              output_files = [''/out/scan_axial_0.png'', ''/out/scan_coronal_1.png'',
                              ''/out/scan_sagittal_1.png'']\<rparr>"
  define img where "img = normalize_minmax (plane_at a 0 0)"
  have run: "extract_2d_slices (\<lambda>d. Inr (normalize_minmax d)) (\<lambda>path v. Inr True) a
        ''/data/scan.nii'' None 1 (Some ''/out'') = Inr w"
    unfolding a_def w_def by (rule extract_small_volume(2))
  have mem: "(''/out/scan_axial_0.png'', img) \<in> set (files w)" by (simp add: w_def img_def)
  have sh: "shape (plane_at a 0 0) = [2, 2]" by (simp add: plane_at_def a_def)
  have src: "array_values (plane_at a 0 0) = [0, 1, 2, 3]"
    by (simp only: array_values_def sh index_tuples_2_2) (simp add: plane_at_def a_def)
  have r: "round_half_even 0 = 0" "round_half_even 85 = 85" "round_half_even 170 = 170"
    "round_half_even 255 = 255"
    using round_half_even_of_int [of 0] round_half_even_of_int [of 85]
      round_half_even_of_int [of 170] round_half_even_of_int [of 255] by simp_all
  have out: "array_values img = [0, 85, 170, 255]"
    unfolding img_def
    by (simp only: normalize_minmax_def Let_def src)
      (simp add: sh array_values_def index_tuples_2_2 plane_at_def a_def minmax_u8_def r
        del: index_tuples.simps)
  from normalized_pixel_range [OF run mem]
  have "\<exists>slices name src. collect_slices a None 1 = Inr slices
        \<and> (name, src) \<in> set slices \<and> img = normalize_minmax src
        \<and> (\<forall>idx. item img idx \<le> 255)"
    by blast
  with run mem src out show ?thesis unfolding a_def by blast
qed

theorem constant_slice_counterexample:
  "\<exists>w img.
      extract_2d_slices (\<lambda>d. Inr (normalize_minmax d)) (\<lambda>path v. Inr True)
        (\<lparr>shape = [1, 2, 2], item = (\<lambda>idx. 7)\<rparr> :: rat ndarray) ''/data/scan.nii'' None 1 (Some ''/out'') = Inr w
    \<and> (''/out/scan_axial_0.png'', img) \<in> set (files w)
    \<and> img = normalize_minmax (plane_at (\<lparr>shape = [1, 2, 2], item = (\<lambda>idx. 7)\<rparr> :: rat ndarray) 0 0)
    \<and> array_values (plane_at (\<lparr>shape = [1, 2, 2], item = (\<lambda>idx. 7)\<rparr> :: rat ndarray) 0 0) = [7, 7, 7, 7]
    \<and> Max (set (array_values (plane_at (\<lparr>shape = [1, 2, 2], item = (\<lambda>idx. 7)\<rparr> :: rat ndarray) 0 0))) = 7
    \<and> array_values img = [0, 0, 0, 0]"
proof -
  define a :: "rat ndarray" where "a = \<lparr>shape = [1, 2, 2], item = (\<lambda>idx. 7)\<rparr>"
  define w where "w = \<lparr>files = [(''/out/scan_axial_0.png'', normalize_minmax (plane_at a 0 0)),
                       (''/out/scan_coronal_1.png'', normalize_minmax (plane_at a 1 1)),
                       (''/out/scan_sagittal_1.png'', normalize_minmax (plane_at a 2 1))],
              output_files = [''/out/scan_axial_0.png'', ''/out/scan_coronal_1.png'',
                              ''/out/scan_sagittal_1.png'']\<rparr>"
  define img where "img = normalize_minmax (plane_at a 0 0)"
  have run: "extract_2d_slices (\<lambda>d. Inr (normalize_minmax d)) (\<lambda>path v. Inr True) a
        ''/data/scan.nii'' None 1 (Some ''/out'') = Inr w"
    unfolding a_def w_def by (rule extract_small_volume(2))
  have mem: "(''/out/scan_axial_0.png'', img) \<in> set (files w)" by (simp add: w_def img_def)
  have sh: "shape (plane_at a 0 0) = [2, 2]" by (simp add: plane_at_def a_def)
  have src: "array_values (plane_at a 0 0) = [7, 7, 7, 7]"
    by (simp only: array_values_def sh index_tuples_2_2) (simp add: plane_at_def a_def)
  have mx: "Max (set (array_values (plane_at a 0 0))) = 7" by (simp add: src)
  have out: "array_values img = [0, 0, 0, 0]"
    unfolding img_def
    by (simp only: normalize_minmax_def Let_def src)
      (simp add: sh array_values_def index_tuples_2_2 minmax_u8_def del: index_tuples.simps)
  from run mem src mx out show ?thesis unfolding a_def img_def by blast
qed

end
